theory Spec2Isabelle
  imports Complex_Main "HOL-Library.Word" "HOL-Library.Multiset"
begin

section \<open>JavaScript values\<close>

text \<open>
  A JavaScript string is a sequence of UTF-16 code units: \<open>length\<close>, \<open>split\<close>,
  \<open>startsWith\<close>, \<open>substr\<close>, \<open>===\<close> and the regular expressions of
  \<open>index.js\<close> (none has the \<open>u\<close> flag) all work on code units.
  \<open>ascii\<close> writes a string literal of the source whose characters are all ASCII.
\<close>

type_synonym code_unit = "16 word"
type_synonym jsstring = "code_unit list"

definition ascii :: "string \<Rightarrow> jsstring" where
  "ascii s = map (\<lambda>c. of_nat (of_char c)) s"

text \<open>
  A JavaScript number is an IEEE double: NaN, the two infinities, or a finite value. The
  program only compares numbers and tests them for integrality, never computes with them,
  so a finite double is carried by the rational it denotes (\<open>-0\<close> and \<open>0\<close> are both
  \<open>Fin 0\<close>; they compare equal and are both falsy).
\<close>

datatype jsnum = NaN | PosInf | NegInf | Fin rat

datatype jsvalue =
    JUndefined
  | JNull
  | JBool bool
  | JNum jsnum
  | JString jsstring
  | JArray "jsvalue list"
  | JObject "(jsstring \<times> jsvalue) list"

text \<open>
  \<open>JObject ps\<close> is the plain object whose own property \<open>k\<close> holds \<open>map_of ps k\<close>.
  What the program throws or rejects with:
\<close>

datatype js_error =
    TypeError
  | SyntaxError
  | StreamError
  | StorageError

section \<open>The router: \<open>reqMatch\<close> (index.js, lines 168-195)\<close>

record request =
  req_method :: jsstring
  req_url :: jsstring
  req_chunks :: "8 word list list"
  req_stream_error :: "js_error option"

text \<open>
  \<open>req_chunks\<close> are the buffers the \<open>data\<close> events deliver and \<open>req_stream_error\<close>
  is the error of an \<open>error\<close> event, if the stream has one.
\<close>

type_synonym params = "jsstring \<rightharpoonup> jsstring"

text \<open>\<open>s.split('/')\<close>: the segments between the separators; never an empty array.\<close>

fun split_js :: "code_unit \<Rightarrow> jsstring \<Rightarrow> jsstring list" where
  "split_js sep [] = [[]]"
| "split_js sep (c # cs) =
     (if c = sep then [] # split_js sep cs
      else (case split_js sep cs of
              [] \<Rightarrow> [[c]]
            | seg # segs \<Rightarrow> (c # seg) # segs))"

definition slash :: code_unit where
  "slash = 47"

definition colon :: code_unit where
  "colon = 58"

text \<open>\<open>s.startsWith(':')\<close> and \<open>s.substr(1)\<close>.\<close>

definition startsWith_colon :: "jsstring \<Rightarrow> bool" where
  "startsWith_colon s = (case s of [] \<Rightarrow> False | c # _ \<Rightarrow> c = colon)"

definition substr1 :: "jsstring \<Rightarrow> jsstring" where
  "substr1 s = drop 1 s"

text \<open>
  \<open>params[paramName] = urlSplit[i]\<close> on the plain object \<open>params = {}\<close>: the value
  becomes an own property, except under the name \<open>__proto__\<close>, where the assignment
  reaches the setter of \<open>Object.prototype\<close>, which ignores a string.
\<close>

definition js_set :: "params \<Rightarrow> jsstring \<Rightarrow> jsstring \<Rightarrow> params" where
  "js_set obj k v = (if k = ascii ''__proto__'' then obj else obj(k \<mapsto> v))"

text \<open>
  The \<open>for\<close> loop of \<open>reqMatch\<close>, entered only when both arrays have the same length;
  the first argument is what is left of \<open>urlSplit\<close>, the second what is left of
  \<open>pathSplit\<close>. \<open>break\<close> leaves with \<open>result = false\<close> and the bindings made so far.
\<close>

fun reqMatch_loop :: "jsstring list \<Rightarrow> jsstring list \<Rightarrow> params \<Rightarrow> bool \<times> params" where
  "reqMatch_loop (u # us) (p # ps) params =
     (if startsWith_colon p then reqMatch_loop us ps (js_set params (substr1 p) u)
      else if p \<noteq> u then (False, params)
      else reqMatch_loop us ps params)"
| "reqMatch_loop _ _ params = (True, params)"

text \<open>
  \<open>reqMatch\<close> returns its boolean; the variable \<open>params\<close> of the enclosing handler,
  which it resets to \<open>{}\<close> on entry, is the second component.
\<close>

definition reqMatch :: "request \<Rightarrow> jsstring \<Rightarrow> jsstring \<Rightarrow> bool \<times> params" where
  "reqMatch req method path =
     (if req_method req \<noteq> method then (False, Map.empty)
      else
        let urlSplit = split_js slash (req_url req);
            pathSplit = split_js slash path
        in if length urlSplit \<noteq> length pathSplit then (False, Map.empty)
           else reqMatch_loop urlSplit pathSplit Map.empty)"

subsection \<open>The matching rule as the specification words it\<close>

text \<open>
  Section 4.1 of the specification: no match when the methods differ; both paths are split
  on \<open>/\<close> and unequal segment counts are no match; a template segment starting with
  \<open>:\<close> binds the rest of its name to the incoming segment; a literal segment must equal
  the incoming one; a binding stays recorded when a later segment fails. The reference
  reads this as a scan in segment order: the bindings are those of the segments before
  the first one that fails.
\<close>

definition spec_is_param :: "jsstring \<Rightarrow> bool" where
  "spec_is_param t = (t \<noteq> [] \<and> hd t = colon)"

definition spec_segment_ok :: "jsstring \<times> jsstring \<Rightarrow> bool" where
  "spec_segment_ok tu = (spec_is_param (fst tu) \<or> fst tu = snd tu)"

definition spec_bindings :: "(jsstring \<times> jsstring) list \<Rightarrow> (jsstring \<times> jsstring) list" where
  "spec_bindings tus = map (\<lambda>tu. (tl (fst tu), snd tu)) (filter (\<lambda>tu. spec_is_param (fst tu)) tus)"

definition spec_bind :: "params \<Rightarrow> jsstring \<times> jsstring \<Rightarrow> params" where
  "spec_bind m kv = m(fst kv \<mapsto> snd kv)"

definition spec_match :: "jsstring \<Rightarrow> jsstring \<Rightarrow> jsstring \<Rightarrow> jsstring \<Rightarrow> bool \<times> params" where
  "spec_match method template incoming_method incoming_path =
     (if incoming_method \<noteq> method then (False, Map.empty)
      else if length (split_js slash template) \<noteq> length (split_js slash incoming_path)
      then (False, Map.empty)
      else
        let pairs = zip (split_js slash template) (split_js slash incoming_path)
        in (list_all spec_segment_ok pairs,
            foldl spec_bind Map.empty (spec_bindings (takeWhile spec_segment_ok pairs))))"

text \<open>The parameter names of a template.\<close>

definition param_names :: "jsstring \<Rightarrow> jsstring list" where
  "param_names template = map substr1 (filter startsWith_colon (split_js slash template))"

section \<open>The validator: \<open>validaImmagine\<close> (index.js, lines 51-82)\<close>

text \<open>
  \<open>v.name\<close> for the property names the program reads (\<open>image_url\<close>, \<open>rating\<close>,
  \<open>description\<close>, \<open>position\<close>, \<open>id\<close>), none of which a prototype defines: reading a
  property of \<open>null\<close> or \<open>undefined\<close> throws a TypeError, an object gives its own
  property or \<open>undefined\<close>, every other value gives \<open>undefined\<close>.
\<close>

definition get_prop :: "jsvalue \<Rightarrow> jsstring \<Rightarrow> js_error + jsvalue" where
  "get_prop v k =
     (case v of
        JUndefined \<Rightarrow> Inl TypeError
      | JNull \<Rightarrow> Inl TypeError
      | JObject ps \<Rightarrow> Inr (case map_of ps k of None \<Rightarrow> JUndefined | Some x \<Rightarrow> x)
      | _ \<Rightarrow> Inr JUndefined)"

text \<open>Truthiness, as \<open>!v\<close>, \<open>v && w\<close> and \<open>v || w\<close> test it.\<close>

fun js_truthy :: "jsvalue \<Rightarrow> bool" where
  "js_truthy JUndefined = False"
| "js_truthy JNull = False"
| "js_truthy (JBool b) = b"
| "js_truthy (JNum n) = (n \<noteq> NaN \<and> n \<noteq> Fin 0)"
| "js_truthy (JString s) = (s \<noteq> [])"
| "js_truthy (JArray xs) = True"
| "js_truthy (JObject ps) = True"

text \<open>\<open>typeof v === 'string'\<close>, and the code units of a string value.\<close>

fun typeof_string :: "jsvalue \<Rightarrow> bool" where
  "typeof_string (JString s) = True"
| "typeof_string _ = False"

fun string_of :: "jsvalue \<Rightarrow> jsstring" where
  "string_of (JString s) = s"
| "string_of _ = []"

subsection \<open>The two regular expressions\<close>

text \<open>
  The patterns \<open>/^https?:\/\/.+/\<close> and \<open>/^data:image\/.+/\<close> use three constructs: a
  literal character, an optional literal character, and \<open>.+\<close>, where \<open>.\<close> is any code
  unit but a line terminator (LF, CR, U+2028, U+2029). \<open>re_test\<close> is \<open>test\<close> for a
  pattern that starts with \<open>^\<close>: the pattern must match a prefix of the string.
\<close>

datatype re_item = Lit code_unit | Opt code_unit | DotPlus

definition line_terminator :: "code_unit \<Rightarrow> bool" where
  "line_terminator c = (c = 0x0A \<or> c = 0x0D \<or> c = 0x2028 \<or> c = 0x2029)"

fun re_test :: "re_item list \<Rightarrow> jsstring \<Rightarrow> bool" where
  "re_test [] s = True"
| "re_test (Lit c # r) [] = False"
| "re_test (Lit c # r) (x # xs) = (x = c \<and> re_test r xs)"
| "re_test (Opt c # r) [] = re_test r []"
| "re_test (Opt c # r) (x # xs) = ((x = c \<and> re_test r xs) \<or> re_test r (x # xs))"
| "re_test (DotPlus # r) [] = False"
| "re_test (DotPlus # r) (x # xs) =
     (if line_terminator x then False else (re_test (DotPlus # r) xs \<or> re_test r xs))"

definition re_http :: "re_item list" where
  "re_http = map Lit (ascii ''http'') @ [Opt 0x73] @ map Lit (ascii ''://'') @ [DotPlus]"

definition re_data_image :: "re_item list" where
  "re_data_image = map Lit (ascii ''data:image/'') @ [DotPlus]"

subsection \<open>\<open>Number(v)\<close>, \<open>Number.isInteger\<close> and less-than\<close>

text \<open>
  \<open>Number(v)\<close> on an array or an object first converts it to a primitive, and that
  conversion can throw. No property of a value that \<open>JSON.parse\<close> built is callable.
  For a plain object the inherited \<open>valueOf\<close> returns the object itself, so the
  conversion goes on to \<open>toString\<close>: an own property of that name is not callable and
  the conversion throws a TypeError; without one the inherited method gives
  \<open>[object Object]\<close>. For an array the inherited \<open>toString\<close> joins the elements,
  each converted to a string the same way (\<open>null\<close> and \<open>undefined\<close> give the empty
  string), so it throws exactly when the conversion of an element does.
\<close>

fun to_string_throws :: "jsvalue \<Rightarrow> bool" where
  "to_string_throws (JObject ps) = (map_of ps (ascii ''toString'') \<noteq> None)"
| "to_string_throws (JArray xs) = (\<exists>x \<in> set xs. to_string_throws x)"
| "to_string_throws _ = False"

text \<open>
  \<open>Number(v)\<close> is fixed by the language for \<open>undefined\<close>, \<open>null\<close>, booleans and
  numbers, and it never throws on a string. A string of one to fifteen decimal digits
  denotes its decimal value (below \<open>2^53\<close>, so exact). An object that converts gives
  \<open>Number("[object Object]")\<close>, which is NaN. For every other string, and for an array
  that converts, the result is what the language's \<open>StringToNumber\<close> grammar and
  rounding give: that number is the parameter \<open>conv\<close>.
\<close>

fun decimal_digits :: "jsstring \<Rightarrow> nat \<Rightarrow> nat option" where
  "decimal_digits [] acc = Some acc"
| "decimal_digits (c # cs) acc =
     (if 48 \<le> c \<and> c \<le> 57 then decimal_digits cs (10 * acc + (unat c - 48)) else None)"

definition js_Number :: "(jsvalue \<Rightarrow> jsnum) \<Rightarrow> jsvalue \<Rightarrow> js_error + jsnum" where
  "js_Number conv v =
     (case v of
        JUndefined \<Rightarrow> Inr NaN
      | JNull \<Rightarrow> Inr (Fin 0)
      | JBool b \<Rightarrow> Inr (if b then Fin 1 else Fin 0)
      | JNum n \<Rightarrow> Inr n
      | JString s \<Rightarrow>
          Inr (if s \<noteq> [] \<and> length s \<le> 15
               then (case decimal_digits s 0 of Some n \<Rightarrow> Fin (of_nat n) | None \<Rightarrow> conv v)
               else conv v)
      | JArray xs \<Rightarrow> (if to_string_throws v then Inl TypeError else Inr (conv v))
      | JObject ps \<Rightarrow> (if to_string_throws v then Inl TypeError else Inr NaN))"

fun isInteger :: "jsnum \<Rightarrow> bool" where
  "isInteger (Fin q) = (of_int \<lfloor>q\<rfloor> = q)"
| "isInteger _ = False"

text \<open>The comparison \<open>a less-than b\<close> on numbers: false as soon as one side is NaN.\<close>

fun js_less :: "jsnum \<Rightarrow> jsnum \<Rightarrow> bool" where
  "js_less NaN b = False"
| "js_less a NaN = False"
| "js_less (Fin a) (Fin b) = (a < b)"
| "js_less NegInf b = (b \<noteq> NegInf)"
| "js_less a PosInf = (a \<noteq> PosInf)"
| "js_less PosInf b = False"
| "js_less a NegInf = False"

subsection \<open>The messages and the function\<close>

definition msg_url_obbligatorio :: jsstring where
  "msg_url_obbligatorio =
     ascii ''L'' @ [0x27] @ ascii ''URL dell'' @ [0x27] @ ascii ''immagine '' @ [0xE8]
       @ ascii '' obbligatorio.''"

definition msg_url_non_valido :: jsstring where
  "msg_url_non_valido =
     ascii ''L'' @ [0x27] @ ascii ''URL dell'' @ [0x27]
       @ ascii ''immagine deve essere valido (http/https) o un'' @ [0x27]
       @ ascii ''immagine in base64.''"

definition msg_voto_obbligatorio :: jsstring where
  "msg_voto_obbligatorio = ascii ''Il voto '' @ [0xE8] @ ascii '' obbligatorio.''"

definition msg_voto_intervallo :: jsstring where
  "msg_voto_intervallo = ascii ''Il voto deve essere un numero intero compreso tra 1 e 5.''"

definition msg_descrizione_lunga :: jsstring where
  "msg_descrizione_lunga =
     ascii ''La descrizione non pu'' @ [0xF2] @ ascii '' superare i 200 caratteri.''"

text \<open>
  \<open>errori0\<close> to \<open>errori3\<close> are the array \<open>errori\<close> after each of the three
  blocks; \<open>push\<close> appends. The function throws in two places: at the first property
  read when the argument is \<open>null\<close>, and at \<open>Number(immagine.rating)\<close> when the
  rating does not convert, after the url block and before the description block. The
  three property reads are written first; only the first of them can throw.
\<close>

definition validaImmagine :: "(jsvalue \<Rightarrow> jsnum) \<Rightarrow> jsvalue \<Rightarrow> js_error + jsstring list" where
  "validaImmagine conv immagine =
     (case get_prop immagine (ascii ''image_url'') of
        Inl e \<Rightarrow> Inl e
      | Inr image_url \<Rightarrow>
     (case get_prop immagine (ascii ''rating'') of
        Inl e \<Rightarrow> Inl e
      | Inr rating \<Rightarrow>
     (case get_prop immagine (ascii ''description'') of
        Inl e \<Rightarrow> Inl e
      | Inr description \<Rightarrow>
        let errori0 = [];
            errori1 =
              (if \<not> js_truthy image_url \<or> \<not> typeof_string image_url
               then errori0 @ [msg_url_obbligatorio]
               else if \<not> re_test re_http (string_of image_url)
                     \<and> \<not> re_test re_data_image (string_of image_url)
               then errori0 @ [msg_url_non_valido]
               else errori0)
        in
        (case (if rating = JUndefined \<or> rating = JNull
               then Inr (errori1 @ [msg_voto_obbligatorio])
               else
                 (case js_Number conv rating of
                    Inl e \<Rightarrow> Inl e
                  | Inr voto \<Rightarrow>
                      if \<not> isInteger voto \<or> js_less voto (Fin 1) \<or> js_less (Fin 5) voto
                      then Inr (errori1 @ [msg_voto_intervallo])
                      else Inr errori1)) of
           Inl e \<Rightarrow> Inl e
         | Inr errori2 \<Rightarrow>
             let errori3 =
                   (if js_truthy description \<and> typeof_string description
                    then (if length (string_of description) > 200
                          then errori2 @ [msg_descrizione_lunga]
                          else errori2)
                    else errori2)
             in Inr errori3))))"

text \<open>The value of a property of a value that has properties (\<open>undefined\<close> otherwise).\<close>

definition field_of :: "jsvalue \<Rightarrow> jsstring \<Rightarrow> jsvalue" where
  "field_of v k = (case get_prop v k of Inl e \<Rightarrow> JUndefined | Inr x \<Rightarrow> x)"

text \<open>A conversion for closed examples that never reach \<open>conv\<close>.\<close>

definition conv_unused :: "jsvalue \<Rightarrow> jsnum" where
  "conv_unused v = NaN"

subsection \<open>The field rules in words\<close>

text \<open>
  What the two patterns accept, without regular expressions: the string starts with the
  prefix, and at least one more code unit follows that is not a line terminator.
\<close>

definition follows_prefix :: "jsstring \<Rightarrow> jsstring \<Rightarrow> bool" where
  "follows_prefix p s =
     (take (length p) s = p
      \<and> (case drop (length p) s of [] \<Rightarrow> False | c # cs \<Rightarrow> \<not> line_terminator c))"

text \<open>
  The three field rules of section 4.2 of the specification, each as the condition under
  which the field draws no error: the url is a string of one of the three shapes; the
  rating is there and its number is an integer from 1 to 5; the description is not a
  string of more than 200 code units.
\<close>

definition rule_url_ok :: "jsvalue \<Rightarrow> bool" where
  "rule_url_ok u =
     (typeof_string u
      \<and> (follows_prefix (ascii ''http://'') (string_of u)
         \<or> follows_prefix (ascii ''https://'') (string_of u)
         \<or> follows_prefix (ascii ''data:image/'') (string_of u)))"

definition rule_rating_ok :: "(jsvalue \<Rightarrow> jsnum) \<Rightarrow> jsvalue \<Rightarrow> bool" where
  "rule_rating_ok conv r =
     (r \<noteq> JUndefined \<and> r \<noteq> JNull
      \<and> js_Number conv r \<in> {Inr (Fin 1), Inr (Fin 2), Inr (Fin 3), Inr (Fin 4), Inr (Fin 5)})"

definition rule_description_ok :: "jsvalue \<Rightarrow> bool" where
  "rule_description_ok d = (\<not> (typeof_string d \<and> length (string_of d) > 200))"

text \<open>
  What each of the three blocks of \<open>validaImmagine\<close> pushes, by itself (the rating
  block pushes nothing when \<open>Number\<close> throws).
\<close>

definition url_errors :: "jsvalue \<Rightarrow> jsstring list" where
  "url_errors image_url =
     (if \<not> js_truthy image_url \<or> \<not> typeof_string image_url then [msg_url_obbligatorio]
      else if \<not> re_test re_http (string_of image_url)
            \<and> \<not> re_test re_data_image (string_of image_url)
      then [msg_url_non_valido]
      else [])"

definition rating_errors :: "(jsvalue \<Rightarrow> jsnum) \<Rightarrow> jsvalue \<Rightarrow> jsstring list" where
  "rating_errors conv rating =
     (if rating = JUndefined \<or> rating = JNull then [msg_voto_obbligatorio]
      else
        (case js_Number conv rating of
           Inl e \<Rightarrow> []
         | Inr voto \<Rightarrow>
             if \<not> isInteger voto \<or> js_less voto (Fin 1) \<or> js_less (Fin 5) voto
             then [msg_voto_intervallo]
             else []))"

definition description_errors :: "jsvalue \<Rightarrow> jsstring list" where
  "description_errors description =
     (if js_truthy description \<and> typeof_string description
            \<and> length (string_of description) > 200
      then [msg_descrizione_lunga]
      else [])"

subsection \<open>Example payloads\<close>

text \<open>
  \<open>{"image_url": "https://example.org/a.png", "rating": "3"}\<close>, the same with an empty
  \<open>image_url\<close> and the rating 3, and \<open>{"description": d}\<close> for a string \<open>d\<close> of
  \<open>n\<close> letters \<open>a\<close>.
\<close>

definition payload_valido :: jsvalue where
  "payload_valido =
     JObject [(ascii ''image_url'', JString (ascii ''https://example.org/a.png'')),
              (ascii ''rating'', JString (ascii ''3''))]"

definition payload_url_vuoto :: jsvalue where
  "payload_url_vuoto =
     JObject [(ascii ''image_url'', JString []), (ascii ''rating'', JNum (Fin 3))]"

definition payload_descrizione :: "nat \<Rightarrow> jsvalue" where
  "payload_descrizione n = JObject [(ascii ''description'', JString (replicate n 0x61))]"

text \<open>
  \<open>{"rating": {"toString": 1}, "description": d}\<close> for a string \<open>d\<close> of \<open>n\<close>
  letters \<open>a\<close>: a rating that \<open>Number\<close> cannot convert.
\<close>

definition payload_rating_oggetto :: "nat \<Rightarrow> jsvalue" where
  "payload_rating_oggetto n =
     JObject [(ascii ''rating'', JObject [(ascii ''toString'', JNum (Fin 1))]),
              (ascii ''description'', JString (replicate n 0x61))]"

section \<open>The storage operations (db.js)\<close>

text \<open>
  The table \<open>images\<close>: \<open>id INT AUTO_INCREMENT PRIMARY KEY\<close>, and four nullable
  columns, \<open>image_url LONGTEXT\<close>, \<open>description TEXT\<close>, \<open>rating INT\<close> and
  \<open>position INT DEFAULT 0\<close>.
\<close>

record row =
  row_id :: int
  row_image_url :: "jsstring option"
  row_description :: "jsstring option"
  row_rating :: "int option"
  row_position :: "int option"

text \<open>
  The six statements of db.js, in the order of the file:
  \<^item> \<open>SELECT * FROM images ORDER BY position ASC, id DESC;\<close>
  \<^item> \<open>INSERT INTO images (image_url, description, rating, position) VALUES (?, ?, ?, ?);\<close>
  \<^item> \<open>SELECT * FROM images WHERE id = ?;\<close>
  \<^item> \<open>UPDATE images SET image_url = ?, description = ?, rating = ?, position = ? WHERE id = ?;\<close>
  \<^item> \<open>DELETE FROM images WHERE id = ?;\<close>
  \<^item> \<open>UPDATE images SET position = ? WHERE id = ?;\<close>
\<close>

datatype sql =
    SelectAllOrdered
  | InsertImage
  | SelectById
  | UpdateImage
  | DeleteById
  | UpdatePosition

text \<open>
  The database server is outside the program. A \<open>store\<close> says how it answers:
  whether \<open>mysql.createConnection\<close> rejects, the rows or the fault a \<open>SELECT\<close> gives,
  and the \<open>affectedRows\<close> or the fault a modifying statement gives (the number is the
  count of statements already sent on the connection).
\<close>

record store =
  connect_error :: "js_error option"
  select_rows :: "sql \<Rightarrow> jsvalue list \<Rightarrow> js_error + row list"
  affected_rows :: "nat \<Rightarrow> sql \<Rightarrow> jsvalue list \<Rightarrow> js_error + nat"

text \<open>
  What an operation does to connections: \<open>Opened\<close> when \<open>creaConnessione\<close> has
  returned one, \<open>Queried\<close> for a call of \<open>conn.query\<close> or \<open>conn.execute\<close> with its
  bound values, \<open>Closed\<close> for \<open>conn.close()\<close>. Every operation returns its result
  (\<open>Inl\<close>: the promise rejects) and this trace.
\<close>

datatype db_event = Opened | Queried sql "jsvalue list" | Closed

text \<open>\<open>v || 0\<close>.\<close>

definition or_zero :: "jsvalue \<Rightarrow> jsvalue" where
  "or_zero v = (if js_truthy v then v else JNum (Fin 0))"

text \<open>\<open>getImmagini\<close> has no \<open>try\<close>: a rejection leaves the function at once.\<close>

definition getImmagini :: "store \<Rightarrow> (js_error + row list) \<times> db_event list" where
  "getImmagini st =
     (case connect_error st of
        Some e \<Rightarrow> (Inl e, [])
      | None \<Rightarrow>
          (case select_rows st SelectAllOrdered [] of
             Inl e \<Rightarrow> (Inl e, [Opened, Queried SelectAllOrdered []])
           | Inr results \<Rightarrow> (Inr results, [Opened, Queried SelectAllOrdered [], Closed])))"

text \<open>
  The other operations run in \<open>try\<close>/\<open>catch\<close>/\<open>finally\<close>: the \<open>catch\<close> returns
  \<open>false\<close> (or \<open>null\<close>), the \<open>finally\<close> closes the connection when there is one.
  The bound values are evaluated before the call, so a \<open>null\<close> argument throws inside
  the \<open>try\<close>, after the connection is open and before any statement is sent.
\<close>

definition insert_args :: "jsvalue \<Rightarrow> js_error + jsvalue list" where
  "insert_args immagine =
     (case get_prop immagine (ascii ''image_url'') of
        Inl e \<Rightarrow> Inl e
      | Inr image_url \<Rightarrow>
     (case get_prop immagine (ascii ''description'') of
        Inl e \<Rightarrow> Inl e
      | Inr description \<Rightarrow>
     (case get_prop immagine (ascii ''rating'') of
        Inl e \<Rightarrow> Inl e
      | Inr rating \<Rightarrow>
     (case get_prop immagine (ascii ''position'') of
        Inl e \<Rightarrow> Inl e
      | Inr position \<Rightarrow> Inr [image_url, description, rating, or_zero position]))))"

definition salvaImmagine :: "store \<Rightarrow> jsvalue \<Rightarrow> (js_error + bool) \<times> db_event list" where
  "salvaImmagine st immagine =
     (case connect_error st of
        Some e \<Rightarrow> (Inr False, [])
      | None \<Rightarrow>
          (case insert_args immagine of
             Inl e \<Rightarrow> (Inr False, [Opened, Closed])
           | Inr args \<Rightarrow>
               (case affected_rows st 0 InsertImage args of
                  Inl e \<Rightarrow> (Inr False, [Opened, Queried InsertImage args, Closed])
                | Inr affectedRows \<Rightarrow>
                    (Inr (affectedRows > 0), [Opened, Queried InsertImage args, Closed]))))"

definition trovaImmagine :: "store \<Rightarrow> jsnum \<Rightarrow> (js_error + row option) \<times> db_event list" where
  "trovaImmagine st ident =
     (case connect_error st of
        Some e \<Rightarrow> (Inr None, [])
      | None \<Rightarrow>
          (case select_rows st SelectById [JNum ident] of
             Inl e \<Rightarrow> (Inr None, [Opened, Queried SelectById [JNum ident], Closed])
           | Inr results \<Rightarrow>
               (Inr (case results of [] \<Rightarrow> None | r # rs \<Rightarrow> Some r),
                [Opened, Queried SelectById [JNum ident], Closed])))"

definition modificaImmagine ::
  "store \<Rightarrow> jsnum \<Rightarrow> jsvalue \<Rightarrow> (js_error + bool) \<times> db_event list" where
  "modificaImmagine st ident immagine =
     (case connect_error st of
        Some e \<Rightarrow> (Inr False, [])
      | None \<Rightarrow>
          (case insert_args immagine of
             Inl e \<Rightarrow> (Inr False, [Opened, Closed])
           | Inr args \<Rightarrow>
               (case affected_rows st 0 UpdateImage (args @ [JNum ident]) of
                  Inl e \<Rightarrow>
                    (Inr False, [Opened, Queried UpdateImage (args @ [JNum ident]), Closed])
                | Inr affectedRows \<Rightarrow>
                    (Inr (affectedRows > 0),
                     [Opened, Queried UpdateImage (args @ [JNum ident]), Closed]))))"

definition eliminaImmagine :: "store \<Rightarrow> jsnum \<Rightarrow> (js_error + bool) \<times> db_event list" where
  "eliminaImmagine st ident =
     (case connect_error st of
        Some e \<Rightarrow> (Inr False, [])
      | None \<Rightarrow>
          (case affected_rows st 0 DeleteById [JNum ident] of
             Inl e \<Rightarrow> (Inr False, [Opened, Queried DeleteById [JNum ident], Closed])
           | Inr affectedRows \<Rightarrow>
               (Inr (affectedRows > 0), [Opened, Queried DeleteById [JNum ident], Closed])))"

text \<open>
  The loop of \<open>aggiornaPosizioni\<close> over its array argument: \<open>True\<close> when every
  statement went through, \<open>False\<close> at the first fault, with the statements sent.
\<close>

fun aggiorna_loop :: "store \<Rightarrow> nat \<Rightarrow> jsvalue list \<Rightarrow> bool \<times> db_event list" where
  "aggiorna_loop st n [] = (True, [])"
| "aggiorna_loop st n (item # ordini) =
     (case get_prop item (ascii ''position'') of
        Inl e \<Rightarrow> (False, [])
      | Inr position \<Rightarrow>
     (case get_prop item (ascii ''id'') of
        Inl e \<Rightarrow> (False, [])
      | Inr ident \<Rightarrow>
     (case affected_rows st n UpdatePosition [position, ident] of
        Inl e \<Rightarrow> (False, [Queried UpdatePosition [position, ident]])
      | Inr affectedRows \<Rightarrow>
          (fst (aggiorna_loop st (Suc n) ordini),
           Queried UpdatePosition [position, ident] # snd (aggiorna_loop st (Suc n) ordini)))))"

definition aggiornaPosizioni :: "store \<Rightarrow> jsvalue list \<Rightarrow> (js_error + bool) \<times> db_event list" where
  "aggiornaPosizioni st ordini =
     (case connect_error st of
        Some e \<Rightarrow> (Inr False, [])
      | None \<Rightarrow>
          (Inr (fst (aggiorna_loop st 0 ordini)),
           [Opened] @ snd (aggiorna_loop st 0 ordini) @ [Closed]))"

text \<open>
  A connection that was opened is released: every \<open>Opened\<close> of a trace is followed by a
  \<open>Closed\<close> before the trace ends.
\<close>

fun released :: "db_event list \<Rightarrow> bool" where
  "released [] = True"
| "released (Opened # evs) = (Closed \<in> set evs \<and> released evs)"
| "released (ev # evs) = released evs"

subsection \<open>The ordered read of the table\<close>

text \<open>
  Modelled from the spec: the relational store is not part of the repository, and
  section 1 of the specification assumes that it has standard SQL semantics. Under them
  \<open>SELECT * FROM images ORDER BY position ASC, id DESC\<close> answers with the rows of the
  table, each once, sorted by position ascending (MySQL puts \<open>NULL\<close> first) and, among
  equal positions, by id descending. \<open>sql_order_by\<close> is that answer for a table; the
  order of its argument is the order of insertion.
\<close>

fun position_less :: "int option \<Rightarrow> int option \<Rightarrow> bool" where
  "position_less None None = False"
| "position_less None (Some q) = True"
| "position_less (Some p) None = False"
| "position_less (Some p) (Some q) = (p < q)"

definition order_before :: "row \<Rightarrow> row \<Rightarrow> bool" where
  "order_before a b =
     (position_less (row_position a) (row_position b)
      \<or> (row_position a = row_position b \<and> row_id b \<le> row_id a))"

fun insert_row :: "row \<Rightarrow> row list \<Rightarrow> row list" where
  "insert_row r [] = [r]"
| "insert_row r (x # xs) = (if order_before r x then r # x # xs else x # insert_row r xs)"

definition sql_order_by :: "row list \<Rightarrow> row list" where
  "sql_order_by table = foldr insert_row table []"

section \<open>The request handler (index.js, lines 94-276)\<close>

text \<open>
  The functions of the language and of Node that the handler calls: \<open>JSON.parse\<close>
  (\<open>Inl\<close> when it throws), the UTF-8 decoding of \<open>Buffer.toString\<close>, the number
  \<open>conv\<close> that \<open>js_Number\<close> takes where \<open>Number\<close> does not throw, and
  \<open>parseInt\<close> on a string.
\<close>

record builtins =
  json_parse :: "jsstring \<Rightarrow> js_error + jsvalue"
  utf8_decode :: "8 word list \<Rightarrow> jsstring"
  to_number :: "jsvalue \<Rightarrow> jsnum"
  parse_int :: "jsstring \<Rightarrow> jsnum"

text \<open>
  \<open>getBody\<close>: the promise rejects on a stream error; otherwise the chunks are
  concatenated as bytes, decoded, and parsed inside \<open>try\<close>, whose \<open>catch\<close> resolves to
  \<open>{}\<close>.
\<close>

definition body_text :: "builtins \<Rightarrow> request \<Rightarrow> jsstring" where
  "body_text env req = utf8_decode env (concat (req_chunks req))"

definition getBody :: "builtins \<Rightarrow> request \<Rightarrow> js_error + jsvalue" where
  "getBody env req =
     (case req_stream_error req of
        Some err \<Rightarrow> Inl err
      | None \<Rightarrow>
          (case json_parse env (body_text env req) of
             Inl e \<Rightarrow> Inr (JObject [])
           | Inr v \<Rightarrow> Inr v))"

text \<open>
  A response: the status code (200 unless set), the headers set, and the value whose
  \<open>JSON.stringify\<close> is written (\<open>Empty\<close> for \<open>res.end()\<close>).
\<close>

datatype body =
    Empty
  | Json_rows "row list"
  | Json_row row
  | Json_errori "jsstring list"
  | Json_ok

record response =
  statusCode :: nat
  headers :: "(string \<times> string) list"
  body :: body

definition cors_headers :: "(string \<times> string) list" where
  "cors_headers =
     [(''Access-Control-Allow-Origin'', ''*''),
      (''Access-Control-Allow-Methods'', ''GET, POST, PUT, DELETE, OPTIONS''),
      (''Access-Control-Allow-Headers'', ''Content-Type'')]"

definition json_headers :: "(string \<times> string) list" where
  "json_headers = cors_headers @ [(''Content-Type'', ''application/json'')]"

definition respond :: "nat \<Rightarrow> body \<Rightarrow> response" where
  "respond code b = \<lparr>statusCode = code, headers = json_headers, body = b\<rparr>"

definition msg_salvataggio :: jsstring where
  "msg_salvataggio = ascii ''Errore nel salvataggio del database (verificare log backend)''"

text \<open>\<open>parseInt(params.id)\<close>.\<close>

definition params_id :: "builtins \<Rightarrow> params \<Rightarrow> jsnum" where
  "params_id env ps = (case ps (ascii ''id'') of None \<Rightarrow> NaN | Some s \<Rightarrow> parse_int env s)"

text \<open>
  The handler is an \<open>async\<close> function: \<open>Inl\<close> is its promise rejecting, with no
  response written. The \<open>console.log\<close> calls are left out.
\<close>

definition server ::
  "builtins \<Rightarrow> store \<Rightarrow> request \<Rightarrow> (js_error + response) \<times> db_event list" where
  "server env st req =
     (if req_method req = ascii ''OPTIONS''
      then (Inr \<lparr>statusCode = 204, headers = cors_headers, body = Empty\<rparr>, [])
      else if fst (reqMatch req (ascii ''GET'') (ascii ''/images''))
      then (case getImmagini st of
              (Inl e, evs) \<Rightarrow> (Inl e, evs)
            | (Inr immagini, evs) \<Rightarrow> (Inr (respond 200 (Json_rows immagini)), evs))
      else if fst (reqMatch req (ascii ''POST'') (ascii ''/images''))
      then (case getBody env req of
              Inl e \<Rightarrow> (Inl e, [])
            | Inr immagine \<Rightarrow>
                (case validaImmagine (to_number env) immagine of
                   Inl e \<Rightarrow> (Inl e, [])
                 | Inr errori \<Rightarrow>
                     if length errori > 0 then (Inr (respond 400 (Json_errori errori)), [])
                     else
                       (case salvaImmagine st immagine of
                          (Inl e, evs) \<Rightarrow> (Inl e, evs)
                        | (Inr ok, evs) \<Rightarrow>
                            if ok then (Inr (respond 201 Json_ok), evs)
                            else (Inr (respond 400 (Json_errori [msg_salvataggio])), evs))))
      else if fst (reqMatch req (ascii ''GET'') (ascii ''/images/:id''))
      then (case trovaImmagine st
                   (params_id env (snd (reqMatch req (ascii ''GET'') (ascii ''/images/:id'')))) of
              (Inl e, evs) \<Rightarrow> (Inl e, evs)
            | (Inr None, evs) \<Rightarrow> (Inr (respond 404 Empty), evs)
            | (Inr (Some trovata), evs) \<Rightarrow> (Inr (respond 200 (Json_row trovata)), evs))
      else if fst (reqMatch req (ascii ''PUT'') (ascii ''/images/:id''))
      then (case getBody env req of
              Inl e \<Rightarrow> (Inl e, [])
            | Inr immagine \<Rightarrow>
                (case validaImmagine (to_number env) immagine of
                   Inl e \<Rightarrow> (Inl e, [])
                 | Inr errori \<Rightarrow>
                     if length errori > 0 then (Inr (respond 400 (Json_errori errori)), [])
                     else
                       (case modificaImmagine st
                               (params_id env
                                 (snd (reqMatch req (ascii ''PUT'') (ascii ''/images/:id''))))
                               immagine of
                          (Inl e, evs) \<Rightarrow> (Inl e, evs)
                        | (Inr ok, evs) \<Rightarrow>
                            (Inr (respond (if ok then 204 else 404) Empty), evs))))
      else if fst (reqMatch req (ascii ''DELETE'') (ascii ''/images/:id''))
      then (case eliminaImmagine st
                   (params_id env
                     (snd (reqMatch req (ascii ''DELETE'') (ascii ''/images/:id'')))) of
              (Inl e, evs) \<Rightarrow> (Inl e, evs)
            | (Inr ok, evs) \<Rightarrow> (Inr (respond (if ok then 204 else 404) Empty), evs))
      else (Inr (respond 404 Empty), []))"

section \<open>Example stores, tables and requests\<close>

text \<open>
  A row with a given id and position, and the table of the specification's example:
  ids 10, 20, 30 inserted in that order with positions 2, 1, 1.
\<close>

definition riga :: "int \<Rightarrow> int \<Rightarrow> row" where
  "riga i p =
     \<lparr>row_id = i, row_image_url = Some (ascii ''https://example.org/a.png''),
      row_description = None, row_rating = Some 3, row_position = Some p\<rparr>"

definition tabella :: "row list" where
  "tabella = [riga 10 2, riga 20 1, riga 30 1]"

text \<open>
  A store that is up and holds \<open>tabella\<close>: it answers the ordered read with
  \<open>sql_order_by tabella\<close>, any other read with no row, and every modifying statement
  with one affected row.
\<close>

definition store_up :: store where
  "store_up =
     \<lparr>connect_error = None,
      select_rows = (\<lambda>q args. if q = SelectAllOrdered then Inr (sql_order_by tabella) else Inr []),
      affected_rows = (\<lambda>n q args. Inr 1)\<rparr>"

text \<open>
  The builtins of the closed examples. Three body texts occur in them: \<open>{}\<close>, which
  \<open>JSON.parse\<close> turns into the empty object, \<open>null\<close>, which it turns into \<open>null\<close>,
  and \<open>{o\<close>, on which it throws; their bytes are ASCII, which UTF-8 decodes one to
  one.
\<close>

definition env_esempio :: builtins where
  "env_esempio =
     \<lparr>json_parse =
        (\<lambda>s. if s = ascii ''{}'' then Inr (JObject [])
             else if s = ascii ''null'' then Inr JNull
             else Inl SyntaxError),
      utf8_decode = map ucast,
      to_number = conv_unused,
      parse_int = (\<lambda>s. NaN)\<rparr>"

definition post_images :: "8 word list list \<Rightarrow> request" where
  "post_images chunks =
     \<lparr>req_method = ascii ''POST'', req_url = ascii ''/images'', req_chunks = chunks,
      req_stream_error = None\<rparr>"

section \<open>Router: proofs\<close>

lemma startsWith_colon_iff: "startsWith_colon s = spec_is_param s"
  by (cases s) (simp_all add: startsWith_colon_def spec_is_param_def)

lemma substr1_tl: "substr1 s = tl s"
  by (cases s) (simp_all add: substr1_def)

lemma spec_bindings_Nil: "spec_bindings [] = []"
  by (simp add: spec_bindings_def)

lemma spec_bindings_param:
  "spec_is_param p \<Longrightarrow> spec_bindings ((p, u) # tus) = (tl p, u) # spec_bindings tus"
  by (simp add: spec_bindings_def)

lemma spec_bindings_literal:
  "\<not> spec_is_param p \<Longrightarrow> spec_bindings ((p, u) # tus) = spec_bindings tus"
  by (simp add: spec_bindings_def)

lemma spec_bind_upd: "spec_bind acc (k, v) = acc(k \<mapsto> v)"
  by (simp add: spec_bind_def)

lemma reqMatch_loop_scan:
  assumes "length us = length ps"
    and "ascii ''__proto__'' \<notin> set (map substr1 (filter startsWith_colon ps))"
  shows "reqMatch_loop us ps acc =
    (list_all spec_segment_ok (zip ps us),
     foldl spec_bind acc (spec_bindings (takeWhile spec_segment_ok (zip ps us))))"
  using assms
proof (induction us ps arbitrary: acc rule: list_induct2)
  case Nil
  show ?case by (simp add: spec_bindings_Nil)
next
  case (Cons u us p ps)
  show ?case
  proof (cases "startsWith_colon p")
    case True
    with Cons.prems have names: "substr1 p \<noteq> ascii ''__proto__''"
      and rest: "ascii ''__proto__'' \<notin> set (map substr1 (filter startsWith_colon ps))"
      by auto
    have par: "spec_is_param p"
      using True by (simp add: startsWith_colon_iff)
    then have ok: "spec_segment_ok (p, u)"
      by (simp add: spec_segment_ok_def)
    have "reqMatch_loop (u # us) (p # ps) acc = reqMatch_loop us ps (spec_bind acc (tl p, u))"
      using True names by (simp add: js_set_def substr1_tl spec_bind_upd)
    also have "\<dots> = (list_all spec_segment_ok (zip ps us),
        foldl spec_bind (spec_bind acc (tl p, u))
          (spec_bindings (takeWhile spec_segment_ok (zip ps us))))"
      by (rule Cons.IH [OF rest])
    also have "\<dots> = (list_all spec_segment_ok (zip (p # ps) (u # us)),
        foldl spec_bind acc
          (spec_bindings (takeWhile spec_segment_ok (zip (p # ps) (u # us)))))"
      using ok par by (simp add: spec_bindings_param)
    finally show ?thesis .
  next
    case False
    with Cons.prems have rest: "ascii ''__proto__'' \<notin> set (map substr1 (filter startsWith_colon ps))"
      by simp
    have npar: "\<not> spec_is_param p"
      using False by (simp add: startsWith_colon_iff)
    show ?thesis
    proof (cases "p = u")
      case True
      then have ok: "spec_segment_ok (p, u)"
        by (simp add: spec_segment_ok_def)
      have "reqMatch_loop (u # us) (p # ps) acc = reqMatch_loop us ps acc"
        using False True by simp
      also have "\<dots> = (list_all spec_segment_ok (zip ps us),
          foldl spec_bind acc (spec_bindings (takeWhile spec_segment_ok (zip ps us))))"
        by (rule Cons.IH [OF rest])
      also have "\<dots> = (list_all spec_segment_ok (zip (p # ps) (u # us)),
          foldl spec_bind acc
            (spec_bindings (takeWhile spec_segment_ok (zip (p # ps) (u # us)))))"
        using ok npar by (simp add: spec_bindings_literal)
      finally show ?thesis .
    next
      case neq: False
      then have bad: "\<not> spec_segment_ok (p, u)"
        using npar by (simp add: spec_segment_ok_def)
      have "reqMatch_loop (u # us) (p # ps) acc = (False, acc)"
        using False neq by simp
      then show ?thesis
        using bad by (simp add: spec_bindings_Nil)
    qed
  qed
qed

lemma images_id_names: "param_names (ascii ''/images/:id'') = [ascii ''id'']"
  by (simp add: param_names_def ascii_def slash_def colon_def startsWith_colon_def substr1_def)

lemma images_names: "param_names (ascii ''/images'') = []"
  by (simp add: param_names_def ascii_def slash_def colon_def startsWith_colon_def)

text \<open>
  C1. For every incoming request, \<open>reqMatch(method, template)\<close> is the specification's
  matching rule: no match on another method or another segment count, a \<open>:name\<close>
  segment binds \<open>name\<close> to the incoming segment as it stands, a literal segment must be
  equal, and the bindings made before a failing segment stay in \<open>params\<close>. It holds for
  every template with no parameter called \<open>__proto__\<close>, which covers the two templates
  of the program. Path \<open>/images/42\<close> against \<open>/images/:id\<close> gives \<open>params.id = "42"\<close>,
  and \<open>/images\<close> does not match \<open>/images/42\<close>.
\<close>

theorem reqMatch_refines_spec_match:
  assumes "ascii ''__proto__'' \<notin> set (param_names template)"
  shows "reqMatch req method template =
           spec_match method template (req_method req) (req_url req)
       \<and> reqMatch (req\<lparr>req_url := ascii ''/images/42''\<rparr>) (req_method req) (ascii ''/images/:id'')
           = (True, [ascii ''id'' \<mapsto> ascii ''42''])
       \<and> fst (reqMatch (req\<lparr>req_url := ascii ''/images/42''\<rparr>) method (ascii ''/images'')) = False"
proof (intro conjI)
  show "reqMatch req method template =
      spec_match method template (req_method req) (req_url req)"
  proof (cases "req_method req = method \<and>
      length (split_js slash (req_url req)) = length (split_js slash template)")
    case True
    then have len: "length (split_js slash (req_url req)) = length (split_js slash template)"
      by simp
    from assms have names:
      "ascii ''__proto__'' \<notin> set (map substr1 (filter startsWith_colon (split_js slash template)))"
      by (simp add: param_names_def)
    show ?thesis
      using True reqMatch_loop_scan [OF len names, of Map.empty]
      by (simp add: reqMatch_def spec_match_def Let_def)
  next
    case False
    then show ?thesis
      by (auto simp: reqMatch_def spec_match_def Let_def)
  qed
next
  show "reqMatch (req\<lparr>req_url := ascii ''/images/42''\<rparr>) (req_method req) (ascii ''/images/:id'')
      = (True, [ascii ''id'' \<mapsto> ascii ''42''])"
    by (simp add: reqMatch_def Let_def ascii_def slash_def colon_def startsWith_colon_def
        substr1_def js_set_def)
next
  show "fst (reqMatch (req\<lparr>req_url := ascii ''/images/42''\<rparr>) method (ascii ''/images'')) = False"
    by (simp add: reqMatch_def Let_def ascii_def slash_def)
qed

theorem reqMatch_refines_spec_match_witness:
  "ascii ''__proto__'' \<notin> set (param_names (ascii ''/images/:id''))
   \<and> reqMatch \<lparr>req_method = ascii ''PUT'', req_url = ascii ''/images/7'',
        req_chunks = [], req_stream_error = None\<rparr> (ascii ''PUT'') (ascii ''/images/:id'')
     = spec_match (ascii ''PUT'') (ascii ''/images/:id'') (ascii ''PUT'') (ascii ''/images/7'')
   \<and> spec_match (ascii ''PUT'') (ascii ''/images/:id'') (ascii ''PUT'') (ascii ''/images/7'')
     = (True, [ascii ''id'' \<mapsto> ascii ''7''])"
proof -
  have h: "ascii ''__proto__'' \<notin> set (param_names (ascii ''/images/:id''))"
    by (simp add: images_id_names) (simp add: ascii_def)
  have s: "spec_match (ascii ''PUT'') (ascii ''/images/:id'') (ascii ''PUT'') (ascii ''/images/7'')
     = (True, [ascii ''id'' \<mapsto> ascii ''7''])"
    by (simp add: spec_match_def Let_def ascii_def slash_def colon_def spec_segment_ok_def
        spec_is_param_def spec_bindings_def spec_bind_def)
  show ?thesis
    using h s reqMatch_refines_spec_match [OF h,
        of "\<lparr>req_method = ascii ''PUT'', req_url = ascii ''/images/7'',
            req_chunks = [], req_stream_error = None\<rparr>" "ascii ''PUT''"]
    by simp
qed

section \<open>Validator: proofs\<close>

lemma msgs_distinct:
  "distinct [msg_url_obbligatorio, msg_url_non_valido, msg_voto_obbligatorio,
     msg_voto_intervallo, msg_descrizione_lunga]"
  by (simp add: msg_url_obbligatorio_def msg_url_non_valido_def msg_voto_obbligatorio_def
      msg_voto_intervallo_def msg_descrizione_lunga_def ascii_def)

lemma get_prop_Inr: "v \<noteq> JNull \<Longrightarrow> v \<noteq> JUndefined \<Longrightarrow> get_prop v k = Inr (field_of v k)"
  by (cases v) (simp_all add: get_prop_def field_of_def)

lemma field_of_nothing: "v = JNull \<or> v = JUndefined \<Longrightarrow> field_of v k = JUndefined"
  by (auto simp: field_of_def get_prop_def)

lemma re_dotplus_end: "re_test [DotPlus] s = (case s of [] \<Rightarrow> False | c # cs \<Rightarrow> \<not> line_terminator c)"
  by (cases s) simp_all

lemma re_lit_prefix:
  "re_test (map Lit p @ r) s = (take (length p) s = p \<and> re_test r (drop (length p) s))"
proof (induction p arbitrary: s)
  case Nil
  show ?case by simp
next
  case (Cons c p)
  show ?case
  proof (cases s)
    case Nil
    then show ?thesis by simp
  next
    case (Cons x xs)
    then show ?thesis using Cons.IH [of xs] by auto
  qed
qed

lemma re_data_image_iff: "re_test re_data_image s = follows_prefix (ascii ''data:image/'') s"
  unfolding re_data_image_def follows_prefix_def
  by (simp only: re_lit_prefix re_dotplus_end)

lemma re_opt:
  "re_test (Opt c # r) s = (re_test (Lit c # r) s \<or> re_test r s)"
  by (cases s) simp_all

lemma follows_prefix_append:
  "follows_prefix (p @ q) s = (take (length p) s = p \<and> follows_prefix q (drop (length p) s))"
proof -
  have "(take (length p + length q) s = p @ q)
      = (take (length p) s = p \<and> take (length q) (drop (length p) s) = q)"
  proof (cases "length p \<le> length s")
    case True
    then have "length (take (length p) s) = length p" by simp
    then show ?thesis
      by (simp add: take_add)
  next
    case False
    then have short: "take (length p) s = s" "drop (length p) s = []" by simp_all
    have "s \<noteq> p @ q" "s \<noteq> p" using False by auto
    then show ?thesis
      by (simp add: take_add short)
  qed
  then show ?thesis
    by (auto simp: follows_prefix_def add.commute)
qed

lemma follows_prefix_re:
  "re_test (map Lit p @ [DotPlus]) s = follows_prefix p s"
  by (simp only: re_lit_prefix re_dotplus_end follows_prefix_def)

lemma re_http_iff:
  "re_test re_http s = (follows_prefix (ascii ''http://'') s \<or> follows_prefix (ascii ''https://'') s)"
proof -
  have a: "ascii ''http://'' = ascii ''http'' @ ascii ''://''"
    and b: "ascii ''https://'' = ascii ''http'' @ ascii ''s://''"
    and c: "ascii ''s://'' = [0x73] @ ascii ''://''"
    by (simp_all add: ascii_def)
  have lit: "Lit 0x73 # map Lit (ascii ''://'') @ [DotPlus] = map Lit (ascii ''s://'') @ [DotPlus]"
    by (simp add: ascii_def)
  have "re_test re_http s = (take (length (ascii ''http'')) s = ascii ''http''
      \<and> re_test (Opt 0x73 # map Lit (ascii ''://'') @ [DotPlus]) (drop (length (ascii ''http'')) s))"
    unfolding re_http_def by (simp only: re_lit_prefix append_Cons append_Nil)
  also have "\<dots> = (take (length (ascii ''http'')) s = ascii ''http''
      \<and> (follows_prefix (ascii ''s://'') (drop (length (ascii ''http'')) s)
         \<or> follows_prefix (ascii ''://'') (drop (length (ascii ''http'')) s)))"
    by (simp only: re_opt lit follows_prefix_re)
  also have "\<dots> = (follows_prefix (ascii ''http://'') s \<or> follows_prefix (ascii ''https://'') s)"
    unfolding a b by (simp only: follows_prefix_append) blast
  finally show ?thesis .
qed

lemma range_test:
  "(\<not> isInteger v \<or> js_less v (Fin 1) \<or> js_less (Fin 5) v)
     = (v \<notin> {Fin 1, Fin 2, Fin 3, Fin 4, Fin 5})"
proof (cases v)
  case (Fin q)
  show ?thesis
  proof (cases "of_int \<lfloor>q\<rfloor> = q")
    case True
    then obtain k :: int where q: "q = of_int k" by metis
    have "(k < 1 \<or> 5 < k) = (k \<notin> {1, 2, 3, 4, 5})" by auto
    then show ?thesis using Fin q by simp
  next
    case False
    then have "q \<noteq> 1" "q \<noteq> 2" "q \<noteq> 3" "q \<noteq> 4" "q \<noteq> 5" by auto
    then show ?thesis using Fin False by simp
  qed
qed simp_all

lemma js_Number_throws: "(\<exists>e. js_Number conv v = Inl e) = to_string_throws v"
  by (cases v) (auto simp: js_Number_def)

lemma js_Number_TypeError: "to_string_throws v \<Longrightarrow> js_Number conv v = Inl TypeError"
  by (cases v) (auto simp: js_Number_def)

lemma js_Number_converts: "\<not> to_string_throws v \<Longrightarrow> \<exists>voto. js_Number conv v = Inr voto"
  by (cases v) (auto simp: js_Number_def)

lemma validaImmagine_blocks:
  assumes "immagine \<noteq> JNull" and "immagine \<noteq> JUndefined"
    and "\<not> to_string_throws (field_of immagine (ascii ''rating''))"
  shows "validaImmagine conv immagine =
    Inr (url_errors (field_of immagine (ascii ''image_url''))
       @ rating_errors conv (field_of immagine (ascii ''rating''))
       @ description_errors (field_of immagine (ascii ''description'')))"
proof -
  obtain voto where n: "js_Number conv (field_of immagine (ascii ''rating'')) = Inr voto"
    using js_Number_converts [OF assms(3)] by blast
  show ?thesis
    by (simp add: validaImmagine_def get_prop_Inr [OF assms(1,2)] Let_def url_errors_def
        rating_errors_def description_errors_def n)
qed

lemma validaImmagine_null: "validaImmagine conv JNull = Inl TypeError"
  by (simp add: validaImmagine_def get_prop_def)

lemma validaImmagine_undefined: "validaImmagine conv JUndefined = Inl TypeError"
  by (simp add: validaImmagine_def get_prop_def)

lemma validaImmagine_rating_TypeError:
  assumes "immagine \<noteq> JNull" and "immagine \<noteq> JUndefined"
    and "to_string_throws (field_of immagine (ascii ''rating''))"
  shows "validaImmagine conv immagine = Inl TypeError"
proof -
  have "field_of immagine (ascii ''rating'') \<noteq> JUndefined"
    "field_of immagine (ascii ''rating'') \<noteq> JNull"
    using assms(3) by auto
  then show ?thesis
    by (simp add: validaImmagine_def get_prop_Inr [OF assms(1,2)] Let_def
        js_Number_TypeError [OF assms(3)])
qed

lemma validaImmagine_returns:
  "(\<exists>errori. validaImmagine conv immagine = Inr errori)
     = (immagine \<noteq> JNull \<and> immagine \<noteq> JUndefined
        \<and> \<not> to_string_throws (field_of immagine (ascii ''rating'')))"
proof (cases "immagine \<noteq> JNull \<and> immagine \<noteq> JUndefined")
  case True
  show ?thesis
  proof (cases "to_string_throws (field_of immagine (ascii ''rating''))")
    case throws: True
    then show ?thesis
      using True validaImmagine_rating_TypeError [of immagine conv] by simp
  next
    case False
    then show ?thesis
      using True validaImmagine_blocks [of immagine conv] by simp
  qed
next
  case False
  then show ?thesis
    by (auto simp: validaImmagine_null validaImmagine_undefined)
qed

lemma validaImmagine_Inr_blocks:
  assumes "validaImmagine conv immagine = Inr errori"
  shows "errori = url_errors (field_of immagine (ascii ''image_url''))
       @ rating_errors conv (field_of immagine (ascii ''rating''))
       @ description_errors (field_of immagine (ascii ''description''))"
    and "\<not> to_string_throws (field_of immagine (ascii ''rating''))"
proof -
  have r: "immagine \<noteq> JNull \<and> immagine \<noteq> JUndefined
      \<and> \<not> to_string_throws (field_of immagine (ascii ''rating''))"
    using assms validaImmagine_returns [of conv immagine] by blast
  then show "\<not> to_string_throws (field_of immagine (ascii ''rating''))" by simp
  show "errori = url_errors (field_of immagine (ascii ''image_url''))
       @ rating_errors conv (field_of immagine (ascii ''rating''))
       @ description_errors (field_of immagine (ascii ''description''))"
    using assms r validaImmagine_blocks [of immagine conv] by simp
qed

lemma url_errors_required:
  "(url_errors u = [msg_url_obbligatorio]) = (\<not> typeof_string u \<or> u = JString [])"
  using msgs_distinct by (cases u) (auto simp: url_errors_def)

lemma url_errors_invalid:
  "(url_errors u = [msg_url_non_valido]) =
     (typeof_string u \<and> u \<noteq> JString [] \<and> \<not> rule_url_ok u)"
  using msgs_distinct
  by (cases u) (auto simp: url_errors_def rule_url_ok_def re_http_iff re_data_image_iff)

lemma url_errors_none: "(url_errors u = []) = rule_url_ok u"
  by (cases u)
    (auto simp: url_errors_def rule_url_ok_def re_http_iff re_data_image_iff follows_prefix_def)

lemma url_errors_cases:
  "url_errors u = [] \<or> url_errors u = [msg_url_obbligatorio] \<or> url_errors u = [msg_url_non_valido]"
  by (simp add: url_errors_def)

lemma rating_errors_required:
  "(rating_errors conv r = [msg_voto_obbligatorio]) = (r = JUndefined \<or> r = JNull)"
  using msgs_distinct by (auto simp: rating_errors_def split: sum.split)

lemma rating_errors_range:
  "(rating_errors conv r = [msg_voto_intervallo]) =
     (r \<noteq> JUndefined \<and> r \<noteq> JNull
      \<and> (\<exists>voto. js_Number conv r = Inr voto \<and> voto \<notin> {Fin 1, Fin 2, Fin 3, Fin 4, Fin 5}))"
proof (cases "js_Number conv r")
  case (Inl e)
  then show ?thesis
    using msgs_distinct by (auto simp: rating_errors_def)
next
  case (Inr voto)
  then show ?thesis
    using msgs_distinct range_test [of voto] by (auto simp: rating_errors_def)
qed

lemma rating_errors_none:
  "\<not> to_string_throws r \<Longrightarrow> (rating_errors conv r = []) = rule_rating_ok conv r"
proof -
  assume "\<not> to_string_throws r"
  then obtain voto where n: "js_Number conv r = Inr voto"
    using js_Number_converts by blast
  show ?thesis
    using range_test [of voto] by (auto simp: rating_errors_def rule_rating_ok_def n)
qed

lemma rule_rating_ok_converts: "rule_rating_ok conv r \<Longrightarrow> \<not> to_string_throws r"
  using js_Number_TypeError [of r conv] by (auto simp: rule_rating_ok_def)

lemma rating_errors_cases:
  "rating_errors conv r = [] \<or> rating_errors conv r = [msg_voto_obbligatorio]
     \<or> rating_errors conv r = [msg_voto_intervallo]"
  by (simp add: rating_errors_def split: sum.split)

lemma description_errors_long:
  "(description_errors d = [msg_descrizione_lunga]) = (typeof_string d \<and> length (string_of d) > 200)"
  by (cases d) (auto simp: description_errors_def)

lemma description_errors_none: "(description_errors d = []) = rule_description_ok d"
  by (cases d) (auto simp: description_errors_def rule_description_ok_def)

lemma description_errors_cases:
  "description_errors d = [] \<or> description_errors d = [msg_descrizione_lunga]"
  by (simp add: description_errors_def)

lemma number_3: "js_Number conv (JString (ascii ''3'')) = Inr (Fin 3)"
  by (simp add: js_Number_def ascii_def)

lemma mem_url_obbligatorio:
  "(msg_url_obbligatorio \<in> set (url_errors u @ rating_errors conv r @ description_errors d))
     = (url_errors u = [msg_url_obbligatorio])"
  using msgs_distinct url_errors_cases [of u] rating_errors_cases [of conv r]
    description_errors_cases [of d]
  by auto

lemma mem_url_non_valido:
  "(msg_url_non_valido \<in> set (url_errors u @ rating_errors conv r @ description_errors d))
     = (url_errors u = [msg_url_non_valido])"
  using msgs_distinct url_errors_cases [of u] rating_errors_cases [of conv r]
    description_errors_cases [of d]
  by auto

lemma mem_voto_obbligatorio:
  "(msg_voto_obbligatorio \<in> set (url_errors u @ rating_errors conv r @ description_errors d))
     = (rating_errors conv r = [msg_voto_obbligatorio])"
  using msgs_distinct url_errors_cases [of u] rating_errors_cases [of conv r]
    description_errors_cases [of d]
  by auto

lemma mem_voto_intervallo:
  "(msg_voto_intervallo \<in> set (url_errors u @ rating_errors conv r @ description_errors d))
     = (rating_errors conv r = [msg_voto_intervallo])"
  using msgs_distinct url_errors_cases [of u] rating_errors_cases [of conv r]
    description_errors_cases [of d]
  by auto

lemma mem_descrizione_lunga:
  "(msg_descrizione_lunga \<in> set (url_errors u @ rating_errors conv r @ description_errors d))
     = (description_errors d = [msg_descrizione_lunga])"
  using msgs_distinct url_errors_cases [of u] rating_errors_cases [of conv r]
    description_errors_cases [of d]
  by auto

lemma payload_valido_fields:
  "payload_valido \<noteq> JNull" "payload_valido \<noteq> JUndefined"
  "field_of payload_valido (ascii ''image_url'') = JString (ascii ''https://example.org/a.png'')"
  "field_of payload_valido (ascii ''rating'') = JString (ascii ''3'')"
  "field_of payload_valido (ascii ''description'') = JUndefined"
  by (simp_all add: payload_valido_def field_of_def get_prop_def ascii_def)

lemma payload_url_vuoto_fields:
  "payload_url_vuoto \<noteq> JNull" "payload_url_vuoto \<noteq> JUndefined"
  "field_of payload_url_vuoto (ascii ''image_url'') = JString []"
  "field_of payload_url_vuoto (ascii ''rating'') = JNum (Fin 3)"
  "field_of payload_url_vuoto (ascii ''description'') = JUndefined"
  by (simp_all add: payload_url_vuoto_def field_of_def get_prop_def ascii_def)

lemma payload_descrizione_fields:
  "payload_descrizione n \<noteq> JNull" "payload_descrizione n \<noteq> JUndefined"
  "field_of (payload_descrizione n) (ascii ''image_url'') = JUndefined"
  "field_of (payload_descrizione n) (ascii ''rating'') = JUndefined"
  "field_of (payload_descrizione n) (ascii ''description'') = JString (replicate n 0x61)"
  by (simp_all add: payload_descrizione_def field_of_def get_prop_def ascii_def)

lemma payload_rating_oggetto_fields:
  "payload_rating_oggetto n \<noteq> JNull" "payload_rating_oggetto n \<noteq> JUndefined"
  "field_of (payload_rating_oggetto n) (ascii ''image_url'') = JUndefined"
  "field_of (payload_rating_oggetto n) (ascii ''rating'')
     = JObject [(ascii ''toString'', JNum (Fin 1))]"
  "field_of (payload_rating_oggetto n) (ascii ''description'') = JString (replicate n 0x61)"
  by (simp_all add: payload_rating_oggetto_def field_of_def get_prop_def ascii_def)

lemma rating_oggetto_throws: "to_string_throws (JObject [(ascii ''toString'', JNum (Fin 1))])"
  by simp

lemma validaImmagine_rating_oggetto:
  "validaImmagine conv (payload_rating_oggetto n) = Inl TypeError"
  by (rule validaImmagine_rating_TypeError)
    (simp_all add: payload_rating_oggetto_fields)

lemma validaImmagine_payload_valido: "validaImmagine conv payload_valido = Inr []"
proof -
  have c: "\<not> to_string_throws (field_of payload_valido (ascii ''rating''))"
    by (simp add: payload_valido_fields)
  have u: "rule_url_ok (JString (ascii ''https://example.org/a.png''))"
    by (simp add: rule_url_ok_def follows_prefix_def ascii_def line_terminator_def)
  have r: "rule_rating_ok conv (JString (ascii ''3''))"
    by (simp add: rule_rating_ok_def number_3)
  have d: "rule_description_ok JUndefined"
    by (simp add: rule_description_ok_def)
  have "url_errors (JString (ascii ''https://example.org/a.png'')) = []"
    "rating_errors conv (JString (ascii ''3'')) = []"
    "description_errors JUndefined = []"
    using u r d by (simp_all add: url_errors_none rating_errors_none description_errors_none)
  then show ?thesis
    by (simp add: validaImmagine_blocks [OF payload_valido_fields(1,2) c] payload_valido_fields)
qed

lemma validaImmagine_payload_descrizione:
  "validaImmagine conv (payload_descrizione n) =
     Inr ([msg_url_obbligatorio, msg_voto_obbligatorio]
          @ (if 200 < n then [msg_descrizione_lunga] else []))"
proof -
  have c: "\<not> to_string_throws (field_of (payload_descrizione n) (ascii ''rating''))"
    by (simp add: payload_descrizione_fields)
  have e1: "url_errors JUndefined = [msg_url_obbligatorio]"
    by (simp add: url_errors_required)
  have e2: "rating_errors conv JUndefined = [msg_voto_obbligatorio]"
    by (simp add: rating_errors_required)
  have e3: "description_errors (JString (replicate n 0x61))
      = (if 200 < n then [msg_descrizione_lunga] else [])"
    by (simp add: description_errors_def)
  show ?thesis
    by (simp add: validaImmagine_blocks [OF payload_descrizione_fields(1,2) c]
        payload_descrizione_fields e1 e2 e3)
qed

text \<open>
  C5. Where \<open>validaImmagine\<close> returns a list, the rating rule holds as claimed: the
  "required" message stands in it exactly when \<open>rating\<close> is \<open>undefined\<close> or \<open>null\<close>,
  the range message exactly when \<open>rating\<close> is neither and \<open>Number(rating)\<close> is not one
  of the integers 1 to 5, and \<open>Number("3")\<close> is 3. The claim fails where the function
  returns nothing: at the payload \<open>null\<close> the first property read throws, and at a
  rating such as \<open>{"toString": 1}\<close> the coercion itself throws a TypeError, so no rating
  message is emitted for a payload without rating, nor for a rating that is no integer.
\<close>

theorem validaImmagine_rating_throws:
  "validaImmagine conv JNull = Inl TypeError
   \<and> field_of (payload_rating_oggetto n) (ascii ''rating'')
       = JObject [(ascii ''toString'', JNum (Fin 1))]
   \<and> js_Number conv (JObject [(ascii ''toString'', JNum (Fin 1))]) = Inl TypeError
   \<and> validaImmagine conv (payload_rating_oggetto n) = Inl TypeError
   \<and> (\<forall>errori. validaImmagine conv immagine = Inr errori \<longrightarrow>
         (msg_voto_obbligatorio \<in> set errori)
           = (field_of immagine (ascii ''rating'') = JUndefined
              \<or> field_of immagine (ascii ''rating'') = JNull)
         \<and> (msg_voto_intervallo \<in> set errori)
           = (field_of immagine (ascii ''rating'') \<noteq> JUndefined
              \<and> field_of immagine (ascii ''rating'') \<noteq> JNull
              \<and> (\<exists>voto. js_Number conv (field_of immagine (ascii ''rating'')) = Inr voto
                    \<and> voto \<notin> {Fin 1, Fin 2, Fin 3, Fin 4, Fin 5})))
   \<and> js_Number conv (JString (ascii ''3'')) = Inr (Fin 3)"
proof -
  have rule: "(msg_voto_obbligatorio \<in> set errori)
           = (field_of immagine (ascii ''rating'') = JUndefined
              \<or> field_of immagine (ascii ''rating'') = JNull)
         \<and> (msg_voto_intervallo \<in> set errori)
           = (field_of immagine (ascii ''rating'') \<noteq> JUndefined
              \<and> field_of immagine (ascii ''rating'') \<noteq> JNull
              \<and> (\<exists>voto. js_Number conv (field_of immagine (ascii ''rating'')) = Inr voto
                    \<and> voto \<notin> {Fin 1, Fin 2, Fin 3, Fin 4, Fin 5}))"
    if "validaImmagine conv immagine = Inr errori" for errori
    unfolding validaImmagine_Inr_blocks(1) [OF that]
    by (simp only: mem_voto_obbligatorio mem_voto_intervallo rating_errors_required
        rating_errors_range simp_thms)
  have n: "js_Number conv (JObject [(ascii ''toString'', JNum (Fin 1))]) = Inl TypeError"
    by (rule js_Number_TypeError [OF rating_oggetto_throws])
  show ?thesis
    using rule n
    by (simp add: validaImmagine_null validaImmagine_rating_oggetto number_3
        payload_rating_oggetto_fields)
qed

theorem validaImmagine_rating_throws_witness:
  "validaImmagine conv_unused JNull = Inl TypeError
   \<and> validaImmagine conv_unused (payload_rating_oggetto 0) = Inl TypeError
   \<and> validaImmagine conv_unused payload_valido = Inr []
   \<and> field_of payload_valido (ascii ''rating'') = JString (ascii ''3'')
   \<and> msg_voto_obbligatorio \<notin> set ([] :: jsstring list)
   \<and> js_Number conv_unused (JString (ascii ''3'')) = Inr (Fin 3)"
  using validaImmagine_rating_throws [of conv_unused 0 payload_valido]
  by (simp add: validaImmagine_payload_valido payload_valido_fields)

text \<open>
  C6, as amended. For every payload at which \<open>validaImmagine\<close> does not throw (a payload
  other than \<open>null\<close> whose rating \<open>Number\<close> can convert), the returned list holds the
  "required" url message exactly when \<open>image_url\<close> is missing, is not a string, or is
  the empty string, and the "must be valid" message exactly when \<open>image_url\<close> is a
  non-empty string that neither pattern matches. The pattern \<open>^https?://.+\<close> matches
  the strings that go on after \<open>http://\<close> or \<open>https://\<close>, the pattern
  \<open>^data:image/.+\<close> those that go on after \<open>data:image/\<close>.
\<close>

theorem validaImmagine_url_rule:
  assumes "immagine \<noteq> JNull" and "immagine \<noteq> JUndefined"
    and "\<not> to_string_throws (field_of immagine (ascii ''rating''))"
  shows "\<exists>errori. validaImmagine conv immagine = Inr errori
     \<and> (msg_url_obbligatorio \<in> set errori)
        = (\<not> typeof_string (field_of immagine (ascii ''image_url''))
           \<or> field_of immagine (ascii ''image_url'') = JString [])
     \<and> (msg_url_non_valido \<in> set errori)
        = (typeof_string (field_of immagine (ascii ''image_url''))
           \<and> field_of immagine (ascii ''image_url'') \<noteq> JString []
           \<and> \<not> re_test re_http (string_of (field_of immagine (ascii ''image_url'')))
           \<and> \<not> re_test re_data_image (string_of (field_of immagine (ascii ''image_url''))))
     \<and> re_test re_http s
        = (follows_prefix (ascii ''http://'') s \<or> follows_prefix (ascii ''https://'') s)
     \<and> re_test re_data_image s = follows_prefix (ascii ''data:image/'') s"
proof -
  have inv: "(url_errors u = [msg_url_non_valido])
      = (typeof_string u \<and> u \<noteq> JString [] \<and> \<not> re_test re_http (string_of u)
         \<and> \<not> re_test re_data_image (string_of u))" for u
    by (auto simp: url_errors_invalid rule_url_ok_def re_http_iff re_data_image_iff)
  show ?thesis
    unfolding validaImmagine_blocks [OF assms]
    by (simp only: sum.inject ex_simps simp_thms mem_url_obbligatorio mem_url_non_valido
        url_errors_required inv re_http_iff re_data_image_iff)
qed

theorem validaImmagine_url_rule_witness:
  "payload_valido \<noteq> JNull \<and> payload_valido \<noteq> JUndefined
   \<and> \<not> to_string_throws (field_of payload_valido (ascii ''rating''))
   \<and> re_test re_http (ascii ''https://example.org/a.png'')
   \<and> (\<exists>errori. validaImmagine conv_unused payload_valido = Inr errori
        \<and> msg_url_obbligatorio \<notin> set errori \<and> msg_url_non_valido \<notin> set errori)"
proof -
  have c: "\<not> to_string_throws (field_of payload_valido (ascii ''rating''))"
    by (simp add: payload_valido_fields)
  have m: "re_test re_http (ascii ''https://example.org/a.png'')"
    by (simp add: re_http_def ascii_def line_terminator_def)
  have ne: "JString (ascii ''https://example.org/a.png'') \<noteq> JString []"
    by (simp add: ascii_def)
  show ?thesis
    using validaImmagine_url_rule [OF payload_valido_fields(1,2) c, of conv_unused] m ne c
    by (auto simp: payload_valido_fields)
qed

text \<open>
  The claim as stated fails where \<open>image_url\<close> is the empty string: it is there and it
  is a string, and the message is the "required" one, not the "must be valid" one.
\<close>

theorem validaImmagine_url_rule_empty_string:
  "field_of payload_url_vuoto (ascii ''image_url'') = JString []
   \<and> typeof_string (JString [])
   \<and> validaImmagine conv_unused payload_url_vuoto = Inr [msg_url_obbligatorio]"
proof -
  have c: "\<not> to_string_throws (field_of payload_url_vuoto (ascii ''rating''))"
    by (simp add: payload_url_vuoto_fields)
  have "js_Number conv_unused (JNum (Fin 3))
      \<in> {Inr (Fin 1), Inr (Fin 2), Inr (Fin 3), Inr (Fin 4), Inr (Fin 5)}"
    by (simp add: js_Number_def)
  then have r: "rating_errors conv_unused (JNum (Fin 3)) = []"
    by (simp add: rating_errors_none rule_rating_ok_def)
  have u: "url_errors (JString []) = [msg_url_obbligatorio]"
    by (simp add: url_errors_required)
  have d: "description_errors JUndefined = []"
    by (simp add: description_errors_def)
  show ?thesis
    by (simp add: validaImmagine_blocks [OF payload_url_vuoto_fields(1,2) c]
        payload_url_vuoto_fields u r d)
qed

text \<open>
  C7. Where \<open>validaImmagine\<close> returns a list, the description message stands in it
  exactly when \<open>description\<close> is a string of more than 200 code units. The claim fails
  where the rating does not convert: for a payload with the rating \<open>{"toString": 1}\<close> and
  a description of 201 letters, \<open>Number\<close> throws before the description block is
  reached, and no description message is emitted.
\<close>

theorem validaImmagine_description_throws:
  "field_of (payload_rating_oggetto 201) (ascii ''description'') = JString (replicate 201 0x61)
   \<and> typeof_string (JString (replicate 201 0x61))
   \<and> 200 < length (string_of (JString (replicate 201 0x61)))
   \<and> validaImmagine conv (payload_rating_oggetto 201) = Inl TypeError
   \<and> (\<forall>errori. validaImmagine conv immagine = Inr errori \<longrightarrow>
         (msg_descrizione_lunga \<in> set errori)
           = (typeof_string (field_of immagine (ascii ''description''))
              \<and> 200 < length (string_of (field_of immagine (ascii ''description'')))))"
proof -
  have rule: "(msg_descrizione_lunga \<in> set errori)
           = (typeof_string (field_of immagine (ascii ''description''))
              \<and> 200 < length (string_of (field_of immagine (ascii ''description''))))"
    if "validaImmagine conv immagine = Inr errori" for errori
    unfolding validaImmagine_Inr_blocks(1) [OF that]
    by (simp only: mem_descrizione_lunga description_errors_long)
  show ?thesis
    using rule
    by (simp add: validaImmagine_rating_oggetto payload_rating_oggetto_fields)
qed

theorem validaImmagine_description_throws_witness:
  "validaImmagine conv_unused (payload_rating_oggetto 201) = Inl TypeError
   \<and> validaImmagine conv_unused (payload_descrizione 201)
       = Inr [msg_url_obbligatorio, msg_voto_obbligatorio, msg_descrizione_lunga]
   \<and> msg_descrizione_lunga
       \<in> set [msg_url_obbligatorio, msg_voto_obbligatorio, msg_descrizione_lunga]
   \<and> validaImmagine conv_unused (payload_descrizione 200)
       = Inr [msg_url_obbligatorio, msg_voto_obbligatorio]
   \<and> msg_descrizione_lunga \<notin> set [msg_url_obbligatorio, msg_voto_obbligatorio]"
proof -
  have a: "validaImmagine conv_unused (payload_descrizione 201)
       = Inr [msg_url_obbligatorio, msg_voto_obbligatorio, msg_descrizione_lunga]"
    and b: "validaImmagine conv_unused (payload_descrizione 200)
       = Inr [msg_url_obbligatorio, msg_voto_obbligatorio]"
    by (simp_all add: validaImmagine_payload_descrizione)
  show ?thesis
    using validaImmagine_description_throws [of conv_unused "payload_descrizione 201"]
      validaImmagine_description_throws [of conv_unused "payload_descrizione 200"]
    by (simp add: a b payload_descrizione_fields)
qed

section \<open>Storage operations: proofs\<close>

lemma salvaImmagine_catches: "\<exists>ok. fst (salvaImmagine st immagine) = Inr ok"
  by (auto simp: salvaImmagine_def split: option.split sum.split)

lemma trovaImmagine_catches: "\<exists>found. fst (trovaImmagine st ident) = Inr found"
  by (auto simp: trovaImmagine_def split: option.split sum.split)

lemma modificaImmagine_catches: "\<exists>ok. fst (modificaImmagine st ident immagine) = Inr ok"
  by (auto simp: modificaImmagine_def split: option.split sum.split)

lemma eliminaImmagine_catches: "\<exists>ok. fst (eliminaImmagine st ident) = Inr ok"
  by (auto simp: eliminaImmagine_def split: option.split sum.split)

lemma aggiornaPosizioni_catches: "\<exists>ok. fst (aggiornaPosizioni st ordini) = Inr ok"
  by (auto simp: aggiornaPosizioni_def split: option.split)

lemma reqMatch_get_images:
  "reqMatch (req\<lparr>req_method := ascii ''GET'', req_url := ascii ''/images''\<rparr>)
     (ascii ''GET'') (ascii ''/images'') = (True, Map.empty)"
  by (simp add: reqMatch_def Let_def ascii_def slash_def colon_def startsWith_colon_def)

text \<open>
  C2. The claim holds for create, get-by-id, update and delete (and for the reorder):
  their result is never a rejection. It fails for the list operation: \<open>getImmagini\<close>
  has no \<open>try\<close>, so when the connection cannot be made, or the query fails, it
  rejects with the storage error, and the handler of \<open>GET /images\<close> rejects with it.
\<close>

theorem getImmagini_raw_fault:
  "getImmagini (st\<lparr>connect_error := Some err\<rparr>) = (Inl err, [])
   \<and> fst (getImmagini (st\<lparr>connect_error := None, select_rows := (\<lambda>q args. Inl err)\<rparr>))
       = Inl err
   \<and> server env (st\<lparr>connect_error := Some err\<rparr>)
        (req\<lparr>req_method := ascii ''GET'', req_url := ascii ''/images''\<rparr>) = (Inl err, [])
   \<and> (\<exists>ok. fst (salvaImmagine st immagine) = Inr ok)
   \<and> (\<exists>found. fst (trovaImmagine st ident) = Inr found)
   \<and> (\<exists>ok. fst (modificaImmagine st ident immagine) = Inr ok)
   \<and> (\<exists>ok. fst (eliminaImmagine st ident) = Inr ok)"
proof (intro conjI)
  show g: "getImmagini (st\<lparr>connect_error := Some err\<rparr>) = (Inl err, [])"
    by (simp add: getImmagini_def)
  show "fst (getImmagini (st\<lparr>connect_error := None, select_rows := (\<lambda>q args. Inl err)\<rparr>))
       = Inl err"
    by (simp add: getImmagini_def)
  have m: "req_method (req\<lparr>req_method := ascii ''GET'', req_url := ascii ''/images''\<rparr>)
      \<noteq> ascii ''OPTIONS''"
    by (simp add: ascii_def)
  show "server env (st\<lparr>connect_error := Some err\<rparr>)
        (req\<lparr>req_method := ascii ''GET'', req_url := ascii ''/images''\<rparr>) = (Inl err, [])"
    unfolding server_def by (simp only: m reqMatch_get_images g if_False if_True fst_conv) simp
qed (rule salvaImmagine_catches trovaImmagine_catches modificaImmagine_catches
    eliminaImmagine_catches)+

lemma released_queries:
  "\<forall>ev \<in> set evs. ev \<noteq> Opened \<Longrightarrow> released (evs @ [Closed])"
proof (induction evs)
  case Nil
  show ?case by simp
next
  case (Cons ev evs)
  then show ?case by (cases ev) simp_all
qed

lemma aggiorna_loop_queries: "\<forall>ev \<in> set (snd (aggiorna_loop st n ordini)). ev \<noteq> Opened"
  by (induction ordini arbitrary: n) (auto split: sum.split)

lemma salvaImmagine_released: "released (snd (salvaImmagine st immagine))"
  by (simp add: salvaImmagine_def split: option.split sum.split)

lemma trovaImmagine_released: "released (snd (trovaImmagine st ident))"
  by (simp add: trovaImmagine_def split: option.split sum.split)

lemma modificaImmagine_released: "released (snd (modificaImmagine st ident immagine))"
  by (simp add: modificaImmagine_def split: option.split sum.split)

lemma eliminaImmagine_released: "released (snd (eliminaImmagine st ident))"
  by (simp add: eliminaImmagine_def split: option.split sum.split)

lemma aggiornaPosizioni_released: "released (snd (aggiornaPosizioni st ordini))"
  using released_queries [OF aggiorna_loop_queries, of st 0 ordini]
  by (simp add: aggiornaPosizioni_def split: option.split)

text \<open>
  C3. The claim holds for the five operations written with \<open>finally\<close>: in their traces
  every opened connection is closed. It fails for \<open>getImmagini\<close>: when the query
  rejects, the function is left before \<open>conn.close()\<close>, and the connection stays open.
\<close>

theorem getImmagini_leaves_connection_open:
  "getImmagini (st\<lparr>connect_error := None, select_rows := (\<lambda>q args. Inl err)\<rparr>)
     = (Inl err, [Opened, Queried SelectAllOrdered []])
   \<and> released [Opened, Queried SelectAllOrdered []] = False
   \<and> released (snd (salvaImmagine st immagine))
   \<and> released (snd (trovaImmagine st ident))
   \<and> released (snd (modificaImmagine st ident immagine))
   \<and> released (snd (eliminaImmagine st ident))
   \<and> released (snd (aggiornaPosizioni st ordini))"
proof (intro conjI)
  show "getImmagini (st\<lparr>connect_error := None, select_rows := (\<lambda>q args. Inl err)\<rparr>)
     = (Inl err, [Opened, Queried SelectAllOrdered []])"
    by (simp add: getImmagini_def)
  show "released [Opened, Queried SelectAllOrdered []] = False"
    by simp
qed (rule salvaImmagine_released trovaImmagine_released modificaImmagine_released
    eliminaImmagine_released aggiornaPosizioni_released)+

section \<open>The ordered read: proofs\<close>

lemma position_less_total: "position_less p q \<or> p = q \<or> position_less q p"
  by (cases p; cases q) auto

lemma position_less_trans: "position_less p q \<Longrightarrow> position_less q r \<Longrightarrow> position_less p r"
  by (cases p; cases q; cases r) auto

lemma position_less_irrefl: "\<not> position_less p p"
  by (cases p) auto

lemma order_before_total: "order_before a b \<or> order_before b a"
  using position_less_total [of "row_position a" "row_position b"]
  by (auto simp: order_before_def)

lemma order_before_trans: "order_before a b \<Longrightarrow> order_before b c \<Longrightarrow> order_before a c"
  by (auto simp: order_before_def dest: position_less_trans)

lemma mset_insert_row: "mset (insert_row r xs) = add_mset r (mset xs)"
  by (induction xs) auto

lemma set_insert_row: "set (insert_row r xs) = insert r (set xs)"
  by (induction xs) auto

lemma sorted_insert_row:
  "sorted_wrt order_before xs \<Longrightarrow> sorted_wrt order_before (insert_row r xs)"
proof (induction xs)
  case Nil
  show ?case by simp
next
  case (Cons x xs)
  show ?case
  proof (cases "order_before r x")
    case True
    then have "\<forall>y \<in> set xs. order_before r y"
      using Cons.prems by (auto intro: order_before_trans)
    then show ?thesis using True Cons.prems by simp
  next
    case False
    then have "order_before x r"
      using order_before_total [of r x] by simp
    then show ?thesis
      using False Cons by (simp add: set_insert_row)
  qed
qed

lemma mset_sql_order_by: "mset (sql_order_by table) = mset table"
  unfolding sql_order_by_def by (induction table) (simp_all add: mset_insert_row)

lemma sorted_sql_order_by: "sorted_wrt order_before (sql_order_by table)"
  unfolding sql_order_by_def by (induction table) (simp_all add: sorted_insert_row)

lemma order_before_example:
  "order_before (riga i p) (riga j q) = (p < q \<or> (p = q \<and> j \<le> i))"
  by (simp add: order_before_def riga_def)

lemma sql_order_by_tabella: "sql_order_by tabella = [riga 30 1, riga 20 1, riga 10 2]"
  by (simp add: sql_order_by_def tabella_def order_before_example)

text \<open>
  C9. When the store is up and answers the statement of \<open>getImmagini\<close> as SQL prescribes
  for the table it holds, \<open>getImmagini\<close> returns the rows of the table, each once, in
  an order where a row stands before another only if its position is lower or the
  positions are equal and its id is not lower. For (id=10,pos=2), (id=20,pos=1),
  (id=30,pos=1) the order is 30, 20, 10.
\<close>

theorem getImmagini_ordered:
  assumes "connect_error st = None"
    and "select_rows st SelectAllOrdered [] = Inr (sql_order_by table)"
  shows "\<exists>results. fst (getImmagini st) = Inr results
     \<and> mset results = mset table
     \<and> sorted_wrt order_before results
     \<and> (table = tabella \<longrightarrow> map row_id results = [30, 20, 10])"
proof -
  have "fst (getImmagini st) = Inr (sql_order_by table)"
    using assms by (simp add: getImmagini_def)
  moreover have "map row_id (sql_order_by tabella) = [30, 20, 10]"
    by (simp add: sql_order_by_tabella riga_def)
  ultimately show ?thesis
    using mset_sql_order_by [of table] sorted_sql_order_by [of table] by auto
qed

theorem getImmagini_ordered_witness:
  "connect_error store_up = None
   \<and> select_rows store_up SelectAllOrdered [] = Inr (sql_order_by tabella)
   \<and> (\<exists>results. fst (getImmagini store_up) = Inr results
        \<and> map row_id results = [30, 20, 10]
        \<and> map row_position results = [Some 1, Some 1, Some 2])"
proof -
  have c: "connect_error store_up = None"
    and q: "select_rows store_up SelectAllOrdered [] = Inr (sql_order_by tabella)"
    by (simp_all add: store_up_def)
  have "fst (getImmagini store_up) = Inr [riga 30 1, riga 20 1, riga 10 2]"
    using c q by (simp add: getImmagini_def sql_order_by_tabella)
  then show ?thesis
    using getImmagini_ordered [OF c q] c q by (simp add: riga_def)
qed

section \<open>Position defaulting and body parsing: proofs\<close>

lemma insert_args_fields:
  assumes "immagine \<noteq> JNull" and "immagine \<noteq> JUndefined"
  shows "insert_args immagine =
    Inr [field_of immagine (ascii ''image_url''), field_of immagine (ascii ''description''),
         field_of immagine (ascii ''rating''), or_zero (field_of immagine (ascii ''position''))]"
  by (simp add: insert_args_def get_prop_Inr [OF assms])

text \<open>
  C10. When the connection is made and the payload's \<open>position\<close> is falsy (absent,
  \<open>null\<close>, \<open>false\<close>, \<open>0\<close>, the empty string), the one statement \<open>modificaImmagine\<close>
  sends is the \<open>UPDATE\<close> of the row with the given id with the value 0 bound to
  \<open>position\<close>; \<open>salvaImmagine\<close> binds 0 to \<open>position\<close> in the same case.
\<close>

theorem modificaImmagine_position_default:
  assumes "connect_error st = None"
    and "immagine \<noteq> JNull" and "immagine \<noteq> JUndefined"
    and "\<not> js_truthy (field_of immagine (ascii ''position''))"
  shows "snd (modificaImmagine st ident immagine) =
      [Opened,
       Queried UpdateImage
         [field_of immagine (ascii ''image_url''), field_of immagine (ascii ''description''),
          field_of immagine (ascii ''rating''), JNum (Fin 0), JNum ident],
       Closed]
     \<and> snd (salvaImmagine st immagine) =
      [Opened,
       Queried InsertImage
         [field_of immagine (ascii ''image_url''), field_of immagine (ascii ''description''),
          field_of immagine (ascii ''rating''), JNum (Fin 0)],
       Closed]
     \<and> js_truthy JUndefined = False \<and> js_truthy JNull = False
     \<and> js_truthy (JBool False) = False \<and> js_truthy (JNum (Fin 0)) = False
     \<and> js_truthy (JString []) = False"
  using assms(1,4)
  by (simp add: modificaImmagine_def salvaImmagine_def insert_args_fields [OF assms(2,3)]
      or_zero_def split: sum.split)

theorem modificaImmagine_position_default_witness:
  "connect_error store_up = None
   \<and> payload_valido \<noteq> JNull \<and> payload_valido \<noteq> JUndefined
   \<and> field_of payload_valido (ascii ''position'') = JUndefined
   \<and> modificaImmagine store_up (Fin 7) payload_valido =
       (Inr True,
        [Opened,
         Queried UpdateImage
           [JString (ascii ''https://example.org/a.png''), JUndefined,
            JString (ascii ''3''), JNum (Fin 0), JNum (Fin 7)],
         Closed])"
proof -
  have c: "connect_error store_up = None"
    by (simp add: store_up_def)
  have p: "field_of payload_valido (ascii ''position'') = JUndefined"
    by (simp add: payload_valido_def field_of_def get_prop_def ascii_def)
  have f: "\<not> js_truthy (field_of payload_valido (ascii ''position''))"
    by (simp add: p)
  have r: "fst (modificaImmagine store_up (Fin 7) payload_valido) = Inr True"
    by (simp add: modificaImmagine_def store_up_def
        insert_args_fields [OF payload_valido_fields(1,2)])
  show ?thesis
    using modificaImmagine_position_default [OF c payload_valido_fields(1,2) f, of "Fin 7"]
      c p r
    by (simp add: payload_valido_fields prod_eq_iff)
qed

lemma validaImmagine_empty_object:
  "validaImmagine conv (JObject []) = Inr [msg_url_obbligatorio, msg_voto_obbligatorio]"
proof -
  have ne: "JObject [] \<noteq> JNull" "JObject [] \<noteq> JUndefined" by simp_all
  have f: "field_of (JObject []) k = JUndefined" for k
    by (simp add: field_of_def get_prop_def)
  have c: "\<not> to_string_throws (field_of (JObject []) (ascii ''rating''))"
    by (simp add: f)
  show ?thesis
    by (simp add: validaImmagine_blocks [OF ne c] f url_errors_def rating_errors_def
        description_errors_def)
qed

lemma server_post_images:
  assumes "req_method req = ascii ''POST''" and "req_url req = ascii ''/images''"
  shows "server env st req =
    (case getBody env req of
       Inl e \<Rightarrow> (Inl e, [])
     | Inr immagine \<Rightarrow>
         (case validaImmagine (to_number env) immagine of
            Inl e \<Rightarrow> (Inl e, [])
          | Inr errori \<Rightarrow>
              if length errori > 0 then (Inr (respond 400 (Json_errori errori)), [])
              else
                (case salvaImmagine st immagine of
                   (Inl e, evs) \<Rightarrow> (Inl e, evs)
                 | (Inr ok, evs) \<Rightarrow>
                     if ok then (Inr (respond 201 Json_ok), evs)
                     else (Inr (respond 400 (Json_errori [msg_salvataggio])), evs))))"
proof -
  have m: "req_method req \<noteq> ascii ''OPTIONS''"
    using assms(1) by (simp add: ascii_def)
  have g: "fst (reqMatch req (ascii ''GET'') (ascii ''/images'')) = False"
    using assms(1) by (simp add: reqMatch_def ascii_def)
  have p: "fst (reqMatch req (ascii ''POST'') (ascii ''/images'')) = True"
    using assms by (simp add: reqMatch_def Let_def ascii_def slash_def colon_def
        startsWith_colon_def)
  show ?thesis
    unfolding server_def by (simp only: m g p if_False if_True)
qed

text \<open>
  C4. For a request whose body stream ends without error and whose text \<open>JSON.parse\<close>
  rejects, \<open>getBody\<close> resolves to the empty object. For \<open>POST /images\<close> the response
  is then status 400 with the two messages for a missing url and a missing rating, no
  statement is sent to the store, and every \<open>POST /images\<close> whose body parses to the
  empty object gets the same response.
\<close>

theorem malformed_body_as_empty_object:
  assumes "req_stream_error req = None"
    and "json_parse env (body_text env req) = Inl e"
    and "req_method req = ascii ''POST''" and "req_url req = ascii ''/images''"
  shows "getBody env req = Inr (JObject [])
     \<and> server env st req =
         (Inr (respond 400 (Json_errori [msg_url_obbligatorio, msg_voto_obbligatorio])), [])
     \<and> (\<forall>req'. req_method req' = ascii ''POST'' \<and> req_url req' = ascii ''/images''
            \<and> req_stream_error req' = None
            \<and> json_parse env (body_text env req') = Inr (JObject [])
          \<longrightarrow> server env st req' = server env st req)"
proof -
  have b: "getBody env req = Inr (JObject [])"
    using assms(1,2) by (simp add: getBody_def)
  have r: "server env st req =
      (Inr (respond 400 (Json_errori [msg_url_obbligatorio, msg_voto_obbligatorio])), [])"
    by (simp add: server_post_images [OF assms(3,4)] b validaImmagine_empty_object)
  have "server env st req' = server env st req"
    if "req_method req' = ascii ''POST''" and "req_url req' = ascii ''/images''"
      and "req_stream_error req' = None"
      and "json_parse env (body_text env req') = Inr (JObject [])" for req'
  proof -
    have "getBody env req' = Inr (JObject [])"
      using that(3,4) by (simp add: getBody_def)
    then show ?thesis
      by (simp add: server_post_images [OF that(1,2)] r validaImmagine_empty_object)
  qed
  then show ?thesis
    using b r by blast
qed

theorem malformed_body_as_empty_object_witness:
  "req_stream_error (post_images [[0x7B, 0x6F]]) = None
   \<and> json_parse env_esempio (body_text env_esempio (post_images [[0x7B, 0x6F]])) = Inl SyntaxError
   \<and> json_parse env_esempio (body_text env_esempio (post_images [[0x7B], [0x7D]]))
       = Inr (JObject [])
   \<and> getBody env_esempio (post_images [[0x7B, 0x6F]]) = Inr (JObject [])
   \<and> server env_esempio store_up (post_images [[0x7B, 0x6F]]) =
       (Inr (respond 400 (Json_errori [msg_url_obbligatorio, msg_voto_obbligatorio])), [])
   \<and> server env_esempio store_up (post_images [[0x7B], [0x7D]])
       = server env_esempio store_up (post_images [[0x7B, 0x6F]])"
proof -
  have s: "req_stream_error (post_images [[0x7B, 0x6F]]) = None"
    and m: "req_method (post_images [[0x7B, 0x6F]]) = ascii ''POST''"
    and u: "req_url (post_images [[0x7B, 0x6F]]) = ascii ''/images''"
    by (simp_all add: post_images_def)
  have bad: "json_parse env_esempio (body_text env_esempio (post_images [[0x7B, 0x6F]]))
      = Inl SyntaxError"
    by (simp add: env_esempio_def body_text_def post_images_def ascii_def)
  have good: "json_parse env_esempio (body_text env_esempio (post_images [[0x7B], [0x7D]]))
      = Inr (JObject [])"
    by (simp add: env_esempio_def body_text_def post_images_def ascii_def)
  have other: "req_method (post_images [[0x7B], [0x7D]]) = ascii ''POST''
      \<and> req_url (post_images [[0x7B], [0x7D]]) = ascii ''/images''
      \<and> req_stream_error (post_images [[0x7B], [0x7D]]) = None"
    by (simp add: post_images_def)
  show ?thesis
    using malformed_body_as_empty_object [OF s bad m u, of store_up] s bad good other
    by blast
qed

text \<open>
  C8. Where \<open>validaImmagine\<close> returns a list, it is the errors of the url, then of the
  rating, then of the description: each field gives at most one message, none exactly
  when the field satisfies its rule, and no field hides another; and a payload that
  satisfies all three rules gets the empty list. The claim fails where the function
  returns nothing: it throws at the payload \<open>null\<close> (for which the handler of
  \<open>POST /images\<close> rejects without a response) and at a rating that \<open>Number\<close> cannot
  convert, whereas for another payload without fields, such as the number 5, it returns
  the two "required" messages.
\<close>

theorem validaImmagine_throws_no_list:
  "validaImmagine conv JNull = Inl TypeError
   \<and> validaImmagine conv (payload_rating_oggetto n) = Inl TypeError
   \<and> server env_esempio store_up (post_images [[0x6E, 0x75, 0x6C, 0x6C]])
       = (Inl TypeError, [])
   \<and> validaImmagine conv (JNum (Fin 5)) = Inr [msg_url_obbligatorio, msg_voto_obbligatorio]
   \<and> (\<forall>errori. validaImmagine conv immagine = Inr errori \<longrightarrow>
        (\<exists>u r d. errori = u @ r @ d
          \<and> (u = [] \<or> u = [msg_url_obbligatorio] \<or> u = [msg_url_non_valido])
          \<and> (u = []) = rule_url_ok (field_of immagine (ascii ''image_url''))
          \<and> (r = [] \<or> r = [msg_voto_obbligatorio] \<or> r = [msg_voto_intervallo])
          \<and> (r = []) = rule_rating_ok conv (field_of immagine (ascii ''rating''))
          \<and> (d = [] \<or> d = [msg_descrizione_lunga])
          \<and> (d = []) = rule_description_ok (field_of immagine (ascii ''description''))))
   \<and> (rule_url_ok (field_of immagine (ascii ''image_url''))
        \<and> rule_rating_ok conv (field_of immagine (ascii ''rating''))
        \<and> rule_description_ok (field_of immagine (ascii ''description''))
       \<longrightarrow> validaImmagine conv immagine = Inr [])"
proof (intro conjI)
  let ?u = "url_errors (field_of immagine (ascii ''image_url''))"
  let ?r = "rating_errors conv (field_of immagine (ascii ''rating''))"
  let ?d = "description_errors (field_of immagine (ascii ''description''))"
  show "validaImmagine conv JNull = Inl TypeError"
    by (rule validaImmagine_null)
  show "validaImmagine conv (payload_rating_oggetto n) = Inl TypeError"
    by (rule validaImmagine_rating_oggetto)
  show "server env_esempio store_up (post_images [[0x6E, 0x75, 0x6C, 0x6C]])
       = (Inl TypeError, [])"
  proof -
    have m: "req_method (post_images [[0x6E, 0x75, 0x6C, 0x6C]]) = ascii ''POST''"
      and u: "req_url (post_images [[0x6E, 0x75, 0x6C, 0x6C]]) = ascii ''/images''"
      by (simp_all add: post_images_def)
    have b: "getBody env_esempio (post_images [[0x6E, 0x75, 0x6C, 0x6C]]) = Inr JNull"
      by (simp add: getBody_def body_text_def env_esempio_def post_images_def ascii_def)
    show ?thesis
      by (simp add: validaImmagine_null server_post_images [OF m u] b)
  qed
  show "validaImmagine conv (JNum (Fin 5)) = Inr [msg_url_obbligatorio, msg_voto_obbligatorio]"
  proof -
    have f: "field_of (JNum (Fin 5)) k = JUndefined" for k
      by (simp add: field_of_def get_prop_def)
    have c: "\<not> to_string_throws (field_of (JNum (Fin 5)) (ascii ''rating''))"
      by (simp add: f)
    have ne: "JNum (Fin 5) \<noteq> JNull" "JNum (Fin 5) \<noteq> JUndefined" by simp_all
    show ?thesis
      by (simp add: validaImmagine_blocks [OF ne c] f url_errors_def rating_errors_def
          description_errors_def)
  qed
  show "\<forall>errori. validaImmagine conv immagine = Inr errori \<longrightarrow>
        (\<exists>u r d. errori = u @ r @ d
          \<and> (u = [] \<or> u = [msg_url_obbligatorio] \<or> u = [msg_url_non_valido])
          \<and> (u = []) = rule_url_ok (field_of immagine (ascii ''image_url''))
          \<and> (r = [] \<or> r = [msg_voto_obbligatorio] \<or> r = [msg_voto_intervallo])
          \<and> (r = []) = rule_rating_ok conv (field_of immagine (ascii ''rating''))
          \<and> (d = [] \<or> d = [msg_descrizione_lunga])
          \<and> (d = []) = rule_description_ok (field_of immagine (ascii ''description'')))"
  proof (intro allI impI)
    fix errori
    assume v: "validaImmagine conv immagine = Inr errori"
    show "\<exists>u r d. errori = u @ r @ d
          \<and> (u = [] \<or> u = [msg_url_obbligatorio] \<or> u = [msg_url_non_valido])
          \<and> (u = []) = rule_url_ok (field_of immagine (ascii ''image_url''))
          \<and> (r = [] \<or> r = [msg_voto_obbligatorio] \<or> r = [msg_voto_intervallo])
          \<and> (r = []) = rule_rating_ok conv (field_of immagine (ascii ''rating''))
          \<and> (d = [] \<or> d = [msg_descrizione_lunga])
          \<and> (d = []) = rule_description_ok (field_of immagine (ascii ''description''))"
      apply (rule exI [of _ ?u], rule exI [of _ ?r], rule exI [of _ ?d])
      apply (intro conjI)
            apply (rule validaImmagine_Inr_blocks(1) [OF v])
           apply (rule url_errors_cases)
          apply (rule url_errors_none)
         apply (rule rating_errors_cases)
        apply (rule rating_errors_none [OF validaImmagine_Inr_blocks(2) [OF v]])
       apply (rule description_errors_cases)
      apply (rule description_errors_none)
      done
  qed
  show "rule_url_ok (field_of immagine (ascii ''image_url''))
        \<and> rule_rating_ok conv (field_of immagine (ascii ''rating''))
        \<and> rule_description_ok (field_of immagine (ascii ''description''))
       \<longrightarrow> validaImmagine conv immagine = Inr []"
  proof
    assume ok: "rule_url_ok (field_of immagine (ascii ''image_url''))
        \<and> rule_rating_ok conv (field_of immagine (ascii ''rating''))
        \<and> rule_description_ok (field_of immagine (ascii ''description''))"
    then have c: "\<not> to_string_throws (field_of immagine (ascii ''rating''))"
      using rule_rating_ok_converts by blast
    have "field_of immagine (ascii ''image_url'') \<noteq> JUndefined"
      using ok by (auto simp: rule_url_ok_def)
    then have ne: "immagine \<noteq> JNull" "immagine \<noteq> JUndefined"
      using field_of_nothing [of immagine "ascii ''image_url''"] by auto
    show "validaImmagine conv immagine = Inr []"
      using ok
      by (simp add: validaImmagine_blocks [OF ne c] url_errors_none rating_errors_none [OF c]
          description_errors_none)
  qed
qed

theorem validaImmagine_throws_no_list_witness:
  "validaImmagine conv_unused JNull = Inl TypeError
   \<and> validaImmagine conv_unused (payload_rating_oggetto 0) = Inl TypeError
   \<and> validaImmagine conv_unused (payload_descrizione 201)
       = Inr [msg_url_obbligatorio, msg_voto_obbligatorio, msg_descrizione_lunga]
   \<and> rule_url_ok (field_of payload_valido (ascii ''image_url''))
   \<and> rule_rating_ok conv_unused (field_of payload_valido (ascii ''rating''))
   \<and> rule_description_ok (field_of payload_valido (ascii ''description''))
   \<and> validaImmagine conv_unused payload_valido = Inr []"
proof -
  have u: "rule_url_ok (field_of payload_valido (ascii ''image_url''))"
    unfolding payload_valido_fields
    by (simp add: rule_url_ok_def follows_prefix_def ascii_def line_terminator_def)
  have r: "rule_rating_ok conv_unused (field_of payload_valido (ascii ''rating''))"
    unfolding payload_valido_fields by (simp add: rule_rating_ok_def number_3)
  have d: "rule_description_ok (field_of payload_valido (ascii ''description''))"
    unfolding payload_valido_fields by (simp add: rule_description_ok_def)
  show ?thesis
    using validaImmagine_throws_no_list [of conv_unused 0 payload_valido] u r d
    by (simp add: validaImmagine_payload_descrizione)
qed

end
